theory Spec2Isabelle
  imports Complex_Main "HOL-Library.AList"
begin

section \<open>The valuation pipeline of \<open>frontend/app.jsx\<close>\<close>

text \<open>
  The source file holds two generations of the same pipeline: the first (\<open>tidyPanelJS\<close>,
  \<open>computeAvgLogPsByYear\<close>, \<open>makeAligned\<close>, \<open>movingAverage\<close>, \<open>scenario\<close>) and the second
  (\<open>parseNumber\<close>, \<open>tidyPanel\<close>, \<open>groupMeanByYear\<close>, \<open>averagePlot\<close>). Both are embedded
  below, each function under its own name.

  Numbers. A JavaScript number is an IEEE-754 double. The embedding takes a finite number as
  the real it denotes, so \<open>+\<close>, \<open>/\<close>, \<open>Math.log\<close> and \<open>Math.exp\<close> are the exact operations on
  \<^typ>\<open>real\<close>; the rounding of each floating-point operation is not modelled. \<open>null\<close> is
  \<^const>\<open>None\<close>. Strings are ASCII.

  Names. \<open>values\<close> and \<open>prop\<close> are reserved words of the prover, and a record field cannot
  share its name with a parameter; the fields of the objects the code returns therefore carry
  a suffix (\<open>years_of\<close>, \<open>values_of\<close>, \<open>labels_of\<close>, \<dots>).
\<close>

section \<open>JavaScript values and built-ins\<close>

text \<open>
  A cell of a loaded sheet: a CSV cell is a string, a spreadsheet cell a string or a number,
  a missing cell is \<open>undefined\<close>.
\<close>

datatype cell = Undefined | Null | Str string | Num real

text \<open>The result of \<open>Number(...)\<close>: not a number, an infinity, or a finite number.\<close>

datatype jsnum = NaN | PosInf | NegInf | Fin real

text \<open>Truthiness of a cell, as \<open>if (!company)\<close> tests it.\<close>

definition truthy :: "cell \<Rightarrow> bool" where
  "truthy v = (case v of Undefined \<Rightarrow> False | Null \<Rightarrow> False | Str s \<Rightarrow> s \<noteq> [] | Num x \<Rightarrow> x \<noteq> 0)"

text \<open>\<open>v != null\<close>.\<close>

definition notNull :: "'a option \<Rightarrow> bool" where
  "notNull v = (v \<noteq> None)"

text \<open>
  \<open>Array.prototype.slice(start, end)\<close>: a negative bound counts from the end of the array,
  both bounds are clipped to the array.
\<close>

definition js_slice :: "'a list \<Rightarrow> int \<Rightarrow> int \<Rightarrow> 'a list" where
  "js_slice arr start fin =
     (let len = int (length arr);
          k = (if start < 0 then max (len + start) 0 else min start len);
          final = (if fin < 0 then max (len + fin) 0 else min fin len)
      in take (nat (final - k)) (drop (nat k) arr))"

text \<open>\<open>Array.prototype.indexOf\<close>: the first index holding the element, or \<open>-1\<close>.\<close>

fun js_indexOf :: "'a list \<Rightarrow> 'a \<Rightarrow> int" where
  "js_indexOf [] x = - 1"
| "js_indexOf (y # ys) x =
     (if y = x then 0 else (let i = js_indexOf ys x in if i < 0 then - 1 else i + 1))"

text \<open>\<open>arr[i]\<close> at a natural index: \<open>undefined\<close> (no value) outside the array.\<close>

definition at_index :: "'a list \<Rightarrow> nat \<Rightarrow> 'a option" where
  "at_index xs i = (if i < length xs then Some (xs ! i) else None)"

text \<open>
  \<open>new Set(xs)\<close> read back with \<open>Array.from\<close>: the elements in the order of their first
  insertion.
\<close>

definition js_Set :: "'a list \<Rightarrow> 'a list" where
  "js_Set xs = foldl (\<lambda>s x. if x \<in> set s then s else s @ [x]) [] xs"

text \<open>
  A \<open>Map\<close> is the list of its entries in insertion order; \<open>Map.prototype.set\<close> is
  \<^const>\<open>AList.update\<close> (the value of a present key is replaced in place, a new key is
  appended), \<open>get\<close> is \<^const>\<open>map_of\<close>. \<open>new Map(entries)\<close> sets the entries in order.
\<close>

definition new_Map :: "('k \<times> 'v) list \<Rightarrow> ('k \<times> 'v) list" where
  "new_Map entries = foldl (\<lambda>m (k, v). AList.update k v m) [] entries"

text \<open>\<open>String(n)\<close> for an integer \<open>n\<close>: its decimal digits.\<close>

function string_of_nat :: "nat \<Rightarrow> string" where
  "string_of_nat n =
     (if n < 10 then [''0123456789'' ! n]
      else string_of_nat (n div 10) @ [''0123456789'' ! (n mod 10)])"
  by pat_completeness auto
termination
  by (relation "measure id") auto

declare string_of_nat.simps [simp del]

definition string_of_int :: "int \<Rightarrow> string" where
  "string_of_int i = (if i < 0 then CHR ''-'' # string_of_nat (nat (- i)) else string_of_nat (nat i))"

subsection \<open>\<open>Number\<close> on strings\<close>

text \<open>
  \<open>String.prototype.trim\<close> and the conversion of a string to a number (ECMAScript
  \<open>StringToNumber\<close>): surrounding white space is dropped, the empty string is \<open>0\<close>, then the
  text is a binary, octal or hexadecimal integer literal, or an optionally signed decimal
  literal (\<open>Infinity\<close>, digits with an optional fraction and exponent); anything else is
  \<open>NaN\<close>. The decimal value is rounded to a double; of this rounding the model keeps what
  changes the class of the result: from \<open>2^1024 - 2^970\<close> on the value is an infinity, and at
  most \<open>2^-1075\<close> away from zero it is \<open>0\<close>.
\<close>

definition isWhiteSpace :: "char \<Rightarrow> bool" where
  "isWhiteSpace c = (c \<in> set [CHR '' '', CHR 0x09, CHR 0x0A, CHR 0x0B, CHR 0x0C, CHR 0x0D])"

definition js_trim :: "string \<Rightarrow> string" where
  "js_trim s = rev (dropWhile isWhiteSpace (rev (dropWhile isWhiteSpace s)))"

definition isDigit :: "char \<Rightarrow> bool" where
  "isDigit c = (c \<in> set ''0123456789'')"

definition digitVal :: "char \<Rightarrow> nat" where
  "digitVal c =
     (if c \<in> set ''0123456789'' then of_char c - 48
      else if c \<in> set ''abcdef'' then of_char c - 87
      else of_char c - 55)"

definition digitsVal :: "nat \<Rightarrow> string \<Rightarrow> nat" where
  "digitsVal base ds = foldl (\<lambda>a c. base * a + digitVal c) 0 ds"

definition toDouble :: "real \<Rightarrow> jsnum" where
  "toDouble v =
     (if 2 ^ 1024 - 2 ^ 970 \<le> v then PosInf
      else if v \<le> - (2 ^ 1024 - 2 ^ 970) then NegInf
      else if \<bar>v\<bar> \<le> 1 / 2 ^ 1075 then Fin 0
      else Fin v)"

definition scale10 :: "real \<Rightarrow> bool \<Rightarrow> nat \<Rightarrow> real" where
  "scale10 m neg e = (if neg then m / 10 ^ e else m * 10 ^ e)"

definition unsignedDecimal :: "string \<Rightarrow> real option" where
  "unsignedDecimal s =
     (let ip = takeWhile isDigit s;
          r1 = dropWhile isDigit s;
          fp = (case r1 of c # t \<Rightarrow> if c = CHR ''.'' then takeWhile isDigit t else [] | [] \<Rightarrow> []);
          r2 = (case r1 of c # t \<Rightarrow> if c = CHR ''.'' then dropWhile isDigit t else r1 | [] \<Rightarrow> []);
          m = real (digitsVal 10 ip) + real (digitsVal 10 fp) / 10 ^ length fp
      in if ip = [] \<and> fp = [] then None
         else (case r2 of
                 [] \<Rightarrow> Some m
               | c # t \<Rightarrow>
                   if c = CHR ''e'' \<or> c = CHR ''E'' then
                     (let neg = (case t of d # _ \<Rightarrow> d = CHR ''-'' | [] \<Rightarrow> False);
                          ds = (case t of d # u \<Rightarrow> if d = CHR ''+'' \<or> d = CHR ''-'' then u else t
                                | [] \<Rightarrow> [])
                      in if ds \<noteq> [] \<and> list_all isDigit ds
                         then Some (scale10 m neg (digitsVal 10 ds)) else None)
                   else None))"

definition strDecimalLiteral :: "string \<Rightarrow> jsnum" where
  "strDecimalLiteral s =
     (let neg = (case s of c # _ \<Rightarrow> c = CHR ''-'' | [] \<Rightarrow> False);
          u = (case s of c # t \<Rightarrow> if c = CHR ''+'' \<or> c = CHR ''-'' then t else s | [] \<Rightarrow> [])
      in if u = ''Infinity'' then (if neg then NegInf else PosInf)
         else (case unsignedDecimal u of
                 None \<Rightarrow> NaN
               | Some m \<Rightarrow> toDouble (if neg then - m else m)))"

definition nonDecimalLiteral :: "string \<Rightarrow> jsnum option" where
  "nonDecimalLiteral s =
     (case s of
        z # p # ds \<Rightarrow>
          if z = CHR ''0'' \<and> ds \<noteq> [] then
            (if (p = CHR ''x'' \<or> p = CHR ''X'') \<and> list_all (\<lambda>c. c \<in> set ''0123456789abcdefABCDEF'') ds
               then Some (toDouble (real (digitsVal 16 ds)))
             else if (p = CHR ''o'' \<or> p = CHR ''O'') \<and> list_all (\<lambda>c. c \<in> set ''01234567'') ds
               then Some (toDouble (real (digitsVal 8 ds)))
             else if (p = CHR ''b'' \<or> p = CHR ''B'') \<and> list_all (\<lambda>c. c \<in> set ''01'') ds
               then Some (toDouble (real (digitsVal 2 ds)))
             else None)
          else None
      | _ \<Rightarrow> None)"

definition stringToNumber :: "string \<Rightarrow> jsnum" where
  "stringToNumber s =
     (let t = js_trim s
      in if t = [] then Fin 0
         else (case nonDecimalLiteral t of Some n \<Rightarrow> n | None \<Rightarrow> strDecimalLiteral t))"

text \<open>\<open>Number(v)\<close> on a cell: \<open>undefined\<close> is \<open>NaN\<close>, \<open>null\<close> is \<open>0\<close>.\<close>

definition js_Number :: "cell \<Rightarrow> jsnum" where
  "js_Number v =
     (case v of Undefined \<Rightarrow> NaN | Null \<Rightarrow> Fin 0 | Num x \<Rightarrow> Fin x | Str s \<Rightarrow> stringToNumber s)"

text \<open>\<open>n || null\<close> on a number: \<open>NaN\<close> and \<open>0\<close> are falsy.\<close>

definition orNull :: "jsnum \<Rightarrow> jsnum option" where
  "orNull n = (case n of NaN \<Rightarrow> None | Fin x \<Rightarrow> if x = 0 then None else Some (Fin x) | _ \<Rightarrow> Some n)"

definition toLowerCase :: "string \<Rightarrow> string" where
  "toLowerCase s =
     map (\<lambda>c. if c \<in> set ''ABCDEFGHIJKLMNOPQRSTUVWXYZ'' then char_of (of_char c + (32 :: nat)) else c) s"

lemmas number_defs = js_Number_def stringToNumber_def nonDecimalLiteral_def strDecimalLiteral_def
  unsignedDecimal_def scale10_def toDouble_def digitsVal_def digitVal_def isDigit_def js_trim_def
  isWhiteSpace_def toLowerCase_def orNull_def Let_def

section \<open>Panel tidier: \<open>parseNumber\<close>, \<open>tidyPanel\<close>, \<open>tidyPanelJS\<close>\<close>

subsection \<open>The code\<close>

text \<open>
  A tidy record \<open>{ Company, Year, MarketCap, Revenue, ValRev }\<close>. \<open>tidyPanel\<close> fills the
  metrics with finite numbers or null; \<open>tidyPanelJS\<close> fills them with \<open>Number(...) || null\<close>,
  which can be an infinity, so the type of the numbers is a parameter.
\<close>

record 'n TidyRecord =
  Company :: cell
  Year :: int
  MarketCap :: "'n option"
  Revenue :: "'n option"
  ValRev :: "'n option"

text \<open>
  \<^verbatim>\<open>
  function parseNumber(value) {
    if (value === undefined || value === null) return null;
    const clean = String(value).replace(/,/g, '').replace(/"/g, '').trim();
    if (!clean || clean.toLowerCase() === 'n/a') return null;
    const num = Number(clean);
    return Number.isFinite(num) ? num : null;
  }
  \<close>
  On a numeric cell \<open>String\<close> prints the number and \<open>Number\<close> reads the same number back.
\<close>

definition parseNumber :: "cell \<Rightarrow> real option" where
  "parseNumber v =
     (case v of
        Undefined \<Rightarrow> None
      | Null \<Rightarrow> None
      | Num x \<Rightarrow> Some x
      | Str s \<Rightarrow>
          (let clean = js_trim (filter (\<lambda>c. c \<noteq> CHR 0x22) (filter (\<lambda>c. c \<noteq> CHR '','') s))
           in if clean = [] \<or> toLowerCase clean = ''n/a'' then None
              else (case stringToNumber clean of Fin num \<Rightarrow> Some num | _ \<Rightarrow> None)))"

text \<open>\<open>row[i]\<close> on an array row: \<open>undefined\<close> outside the row, and at \<open>undefined\<close>.\<close>

definition cell_at :: "cell list \<Rightarrow> int \<Rightarrow> cell" where
  "cell_at row i = (if 0 \<le> i \<and> i < int (length row) then row ! nat i else Undefined)"

definition cell_at_opt :: "cell list \<Rightarrow> int option \<Rightarrow> cell" where
  "cell_at_opt row i = (case i of None \<Rightarrow> Undefined | Some k \<Rightarrow> cell_at row k)"

text \<open>\<open>rows[i] || []\<close>.\<close>

definition row_or_empty :: "cell list list \<Rightarrow> nat \<Rightarrow> cell list" where
  "row_or_empty rows i = (if i < length rows then rows ! i else [])"

text \<open>
  \<^verbatim>\<open>
  function tidyPanel(rows, years) {
    if (!rows.length) return [];
    const header = rows[0];
    const yearIndex = new Map(years.map((year) => [String(year), header.indexOf(String(year))]));
    const records = [];
    for (let i = 1; i < rows.length; i += 1) {
      const company = rows[i]?.[0];
      if (!company) continue;
      const mcRow = rows[i];
      const revRow = rows[i + 1] || [];
      const vrRow = rows[i + 2] || [];
      years.forEach((year) => {
        const colIndex = yearIndex.get(String(year));
        const mc = parseNumber(mcRow[colIndex]);
        const rev = parseNumber(revRow[colIndex]);
        const vr = parseNumber(vrRow[colIndex]);
        records.push({ Company: mcRow[0] || company, Year: year,
                       MarketCap: mc, Revenue: rev, ValRev: vr });
      });
      i += 2;
    }
    return records;
  }
  \<close>
  The loop is a recursion on the cursor \<open>i\<close> and the records pushed so far; a company row
  moves the cursor by \<open>2\<close> and the loop header by \<open>1\<close>.
\<close>

definition yearIndex :: "cell list \<Rightarrow> int list \<Rightarrow> (string \<times> int) list" where
  "yearIndex header years =
     new_Map (map (\<lambda>year. (string_of_int year, js_indexOf header (Str (string_of_int year)))) years)"

definition panelRecord ::
  "(string \<times> int) list \<Rightarrow> cell \<Rightarrow> cell list \<Rightarrow> cell list \<Rightarrow> cell list \<Rightarrow> int \<Rightarrow> real TidyRecord" where
  "panelRecord yi company mcRow revRow vrRow year =
     (let colIndex = map_of yi (string_of_int year);
          mc = parseNumber (cell_at_opt mcRow colIndex);
          rev = parseNumber (cell_at_opt revRow colIndex);
          vr = parseNumber (cell_at_opt vrRow colIndex)
      in \<lparr>Company = (if truthy (cell_at mcRow 0) then cell_at mcRow 0 else company),
          Year = year, MarketCap = mc, Revenue = rev, ValRev = vr\<rparr>)"

function tidyPanel_loop ::
  "cell list list \<Rightarrow> int list \<Rightarrow> (string \<times> int) list \<Rightarrow> nat \<Rightarrow> real TidyRecord list
     \<Rightarrow> real TidyRecord list" where
  "tidyPanel_loop rows years yi i records =
     (if i < length rows then
        (let company = cell_at (rows ! i) 0
         in if \<not> truthy company then tidyPanel_loop rows years yi (i + 1) records
            else (let mcRow = rows ! i;
                      revRow = row_or_empty rows (i + 1);
                      vrRow = row_or_empty rows (i + 2)
                  in tidyPanel_loop rows years yi (i + 2 + 1)
                       (records @ map (panelRecord yi company mcRow revRow vrRow) years)))
      else records)"
  by pat_completeness auto
termination
  by (relation "measure (\<lambda>(rows, years, yi, i, records). length rows - i)") auto

declare tidyPanel_loop.simps [simp del]

definition tidyPanel :: "cell list list \<Rightarrow> int list \<Rightarrow> real TidyRecord list" where
  "tidyPanel rows years =
     (if rows = [] then []
      else (let header = rows ! 0
            in tidyPanel_loop rows years (yearIndex header years) 1 []))"

text \<open>
  The first generation reads rows that are objects keyed by the header's labels.
  \<^verbatim>\<open>
  function tidyPanelJS(rows, years) {
    const records = [];
    let i = 0;
    while (i < rows.length) {
      const row = rows[i];
      const company = row["Company"];
      if (!company) { i += 1; continue; }
      const block = rows.slice(i, i + 3); // Market Cap, Revenue, ValRev
      const mcRow = block.find((r) => r["Metric"] === "Market Cap ($bn)") || {};
      const revRow = block.find((r) => r["Metric"] === "Revenue ($bn)") || {};
      const vrRow = block.find((r) => r["Metric"] === "Valuation/Revenue") || {};
      years.forEach((y) => {
        const col = String(y);
        records.push({ Company: company, Year: y,
          MarketCap: Number(mcRow[col]) || null,
          Revenue: Number(revRow[col]) || null,
          ValRev: Number(vrRow[col]) || null });
      });
      i += 3;
    }
    return records;
  }
  \<close>
\<close>

type_synonym obj = "string \<rightharpoonup> cell"

text \<open>\<open>row[key]\<close> on an object row: \<open>undefined\<close> for a key the object lacks.\<close>

definition getProp :: "obj \<Rightarrow> string \<Rightarrow> cell" where
  "getProp row k = (case row k of None \<Rightarrow> Undefined | Some v \<Rightarrow> v)"

text \<open>\<open>block.find((r) => r["Metric"] === name) || {}\<close>.\<close>

definition findMetric :: "obj list \<Rightarrow> string \<Rightarrow> obj" where
  "findMetric block name =
     (case find (\<lambda>r. getProp r ''Metric'' = Str name) block of None \<Rightarrow> Map.empty | Some r \<Rightarrow> r)"

definition panelRecordJS :: "cell \<Rightarrow> obj list \<Rightarrow> int \<Rightarrow> jsnum TidyRecord" where
  "panelRecordJS company block y =
     (let mcRow = findMetric block ''Market Cap ($bn)'';
          revRow = findMetric block ''Revenue ($bn)'';
          vrRow = findMetric block ''Valuation/Revenue'';
          col = string_of_int y
      in \<lparr>Company = company, Year = y,
          MarketCap = orNull (js_Number (getProp mcRow col)),
          Revenue = orNull (js_Number (getProp revRow col)),
          ValRev = orNull (js_Number (getProp vrRow col))\<rparr>)"

function tidyPanelJS_loop ::
  "obj list \<Rightarrow> int list \<Rightarrow> nat \<Rightarrow> jsnum TidyRecord list \<Rightarrow> jsnum TidyRecord list" where
  "tidyPanelJS_loop rows years i records =
     (if i < length rows then
        (let row = rows ! i;
             company = getProp row ''Company''
         in if \<not> truthy company then tidyPanelJS_loop rows years (i + 1) records
            else (let block = js_slice rows (int i) (int i + 3)
                  in tidyPanelJS_loop rows years (i + 3)
                       (records @ map (panelRecordJS company block) years)))
      else records)"
  by pat_completeness auto
termination
  by (relation "measure (\<lambda>(rows, years, i, records). length rows - i)") auto

declare tidyPanelJS_loop.simps [simp del]

definition tidyPanelJS :: "obj list \<Rightarrow> int list \<Rightarrow> jsnum TidyRecord list" where
  "tidyPanelJS rows years = tidyPanelJS_loop rows years 0 []"

subsection \<open>Blocks of the specification\<close>

text \<open>
  The specification segments the rows into company blocks: a row with an empty or absent
  company identifier is skipped alone, a row with a company identifier starts a block of up
  to three rows (fewer where the table ends inside the block), and the next block is looked
  for after those three rows. \<open>segment\<close> is that segmentation of a row list, for either
  row format; a block's record for a target year is what the code builds from the block's
  rows.
\<close>

function segment :: "('r \<Rightarrow> bool) \<Rightarrow> 'r list \<Rightarrow> 'r list list" where
  "segment P [] = []"
| "segment P (r # rs) = (if P r then take 3 (r # rs) # segment P (drop 2 rs) else segment P rs)"
  by pat_completeness auto
termination
  by (relation "measure (\<lambda>(P, rs). length rs)") auto

definition hasCompany :: "cell list \<Rightarrow> bool" where
  "hasCompany row = truthy (cell_at row 0)"

definition hasCompanyJS :: "obj \<Rightarrow> bool" where
  "hasCompanyJS row = truthy (getProp row ''Company'')"

definition blockRecord :: "cell list \<Rightarrow> int list \<Rightarrow> cell list list \<Rightarrow> int \<Rightarrow> real TidyRecord" where
  "blockRecord header years b year =
     panelRecord (yearIndex header years) (cell_at (hd b) 0) (hd b) (row_or_empty b 1) (row_or_empty b 2) year"

definition blockRecordJS :: "obj list \<Rightarrow> int \<Rightarrow> jsnum TidyRecord" where
  "blockRecordJS b year = panelRecordJS (getProp (hd b) ''Company'') b year"

subsection \<open>The loops visit the blocks\<close>

lemma tidyPanel_loop_segments:
  "tidyPanel_loop rows years (yearIndex header years) i recs =
     recs @ concat (map (\<lambda>b. map (blockRecord header years b) years) (segment hasCompany (drop i rows)))"
proof (induction rows years "yearIndex header years" i recs rule: tidyPanel_loop.induct)
  case (1 rows years i records)
  show ?case
  proof (cases "i < length rows")
    case False
    then show ?thesis by (simp add: tidyPanel_loop.simps [of rows years _ i])
  next
    case True
    then have d: "drop i rows = rows ! i # drop (Suc i) rows" by (simp add: Cons_nth_drop_Suc)
    show ?thesis
    proof (cases "truthy (cell_at (rows ! i) 0)")
      case False
      have "tidyPanel_loop rows years (yearIndex header years) i records
          = tidyPanel_loop rows years (yearIndex header years) (i + 1) records"
        using True False by (subst tidyPanel_loop.simps) (simp add: Let_def)
      also have "\<dots> = records @ concat (map (\<lambda>b. map (blockRecord header years b) years)
                           (segment hasCompany (drop (i + 1) rows)))"
        using True False by (intro "1.hyps"(1)) simp_all
      finally have l: "tidyPanel_loop rows years (yearIndex header years) i records
          = records @ concat (map (\<lambda>b. map (blockRecord header years b) years)
                           (segment hasCompany (drop (i + 1) rows)))" .
      have P: "\<not> hasCompany (rows ! i)" using False by (simp add: hasCompany_def)
      have "segment hasCompany (drop i rows) = segment hasCompany (drop (i + 1) rows)"
        unfolding d using P by simp
      with l show ?thesis by simp
    next
      case t: True
      let ?b = "take 3 (drop i rows)"
      have h: "hd ?b = rows ! i" by (simp add: d)
      have r1: "row_or_empty ?b 1 = row_or_empty rows (i + 1)"
        using True by (auto simp: row_or_empty_def)
      have r2: "row_or_empty ?b 2 = row_or_empty rows (i + 2)"
        using True by (auto simp: row_or_empty_def)
      have dd: "drop 2 (drop (Suc i) rows) = drop (i + 2 + 1) rows" by (simp add: add.commute)
      have "tidyPanel_loop rows years (yearIndex header years) i records
          = tidyPanel_loop rows years (yearIndex header years) (i + 2 + 1)
              (records @ map (panelRecord (yearIndex header years) (cell_at (rows ! i) 0) (rows ! i)
                                (row_or_empty rows (i + 1)) (row_or_empty rows (i + 2))) years)"
        using True t by (subst tidyPanel_loop.simps) (simp add: Let_def)
      also have "\<dots> = (records @ map (panelRecord (yearIndex header years) (cell_at (rows ! i) 0) (rows ! i)
                                (row_or_empty rows (i + 1)) (row_or_empty rows (i + 2))) years)
            @ concat (map (\<lambda>b. map (blockRecord header years b) years)
                        (segment hasCompany (drop (i + 2 + 1) rows)))"
        using True t by (intro "1.hyps"(2)) simp_all
      also have "map (panelRecord (yearIndex header years) (cell_at (rows ! i) 0) (rows ! i)
                                (row_or_empty rows (i + 1)) (row_or_empty rows (i + 2))) years
            = map (blockRecord header years ?b) years"
        unfolding blockRecord_def h r1 r2 ..
      finally have l: "tidyPanel_loop rows years (yearIndex header years) i records
          = (records @ map (blockRecord header years ?b) years)
            @ concat (map (\<lambda>b. map (blockRecord header years b) years)
                        (segment hasCompany (drop (i + 2 + 1) rows)))" .
      have P: "hasCompany (rows ! i)" using t by (simp add: hasCompany_def)
      have "segment hasCompany (rows ! i # drop (Suc i) rows)
          = take 3 (rows ! i # drop (Suc i) rows) # segment hasCompany (drop 2 (drop (Suc i) rows))"
        using P by simp
      then have "segment hasCompany (drop i rows) = ?b # segment hasCompany (drop (i + 2 + 1) rows)"
        unfolding dd d [symmetric] .
      with l show ?thesis by simp
    qed
  qed
qed


lemma js_slice_block: "i < length rows \<Longrightarrow> js_slice rows (int i) (int i + 3) = take 3 (drop i rows)"
  by (auto simp: js_slice_def Let_def min_def nat_diff_distrib' nat_add_distrib)

lemma tidyPanelJS_loop_segments:
  "tidyPanelJS_loop rows years i recs =
     recs @ concat (map (\<lambda>b. map (blockRecordJS b) years) (segment hasCompanyJS (drop i rows)))"
proof (induction rows years i recs rule: tidyPanelJS_loop.induct)
  case (1 rows years i records)
  show ?case
  proof (cases "i < length rows")
    case False
    then show ?thesis by (simp add: tidyPanelJS_loop.simps [of rows years i])
  next
    case True
    then have d: "drop i rows = rows ! i # drop (Suc i) rows" by (simp add: Cons_nth_drop_Suc)
    show ?thesis
    proof (cases "truthy (getProp (rows ! i) ''Company'')")
      case False
      have "tidyPanelJS_loop rows years i records = tidyPanelJS_loop rows years (i + 1) records"
        using True False by (subst tidyPanelJS_loop.simps) (simp add: Let_def)
      also have "\<dots> = records @ concat (map (\<lambda>b. map (blockRecordJS b) years)
                           (segment hasCompanyJS (drop (i + 1) rows)))"
        using True False by (intro "1.IH"(1)) simp_all
      finally have l: "tidyPanelJS_loop rows years i records
          = records @ concat (map (\<lambda>b. map (blockRecordJS b) years)
                           (segment hasCompanyJS (drop (i + 1) rows)))" .
      have P: "\<not> hasCompanyJS (rows ! i)" using False by (simp add: hasCompanyJS_def)
      have "segment hasCompanyJS (drop i rows) = segment hasCompanyJS (drop (i + 1) rows)"
        unfolding d using P by simp
      with l show ?thesis by simp
    next
      case t: True
      let ?b = "take 3 (drop i rows)"
      have h: "hd ?b = rows ! i" by (simp add: d)
      have e3: "i + 3 = 2 + Suc i" by simp
      have dd: "drop 2 (drop (Suc i) rows) = drop (i + 3) rows"
        unfolding e3 by (rule drop_drop)
      have "tidyPanelJS_loop rows years i records
          = tidyPanelJS_loop rows years (i + 3)
              (records @ map (panelRecordJS (getProp (rows ! i) ''Company'')
                                (js_slice rows (int i) (int i + 3))) years)"
        using True t by (subst tidyPanelJS_loop.simps) (simp add: Let_def)
      also have "\<dots> = (records @ map (panelRecordJS (getProp (rows ! i) ''Company'')
                                (js_slice rows (int i) (int i + 3))) years)
            @ concat (map (\<lambda>b. map (blockRecordJS b) years)
                        (segment hasCompanyJS (drop (i + 3) rows)))"
        using True t by (intro "1.IH"(2)) simp_all
      also have "map (panelRecordJS (getProp (rows ! i) ''Company'')
                                (js_slice rows (int i) (int i + 3))) years
            = map (blockRecordJS ?b) years"
        unfolding js_slice_block [OF True] h [symmetric]
        by (rule map_cong [OF refl]) (simp only: blockRecordJS_def)
      finally have l: "tidyPanelJS_loop rows years i records
          = (records @ map (blockRecordJS ?b) years)
            @ concat (map (\<lambda>b. map (blockRecordJS b) years)
                        (segment hasCompanyJS (drop (i + 3) rows)))" .
      have P: "hasCompanyJS (rows ! i)" using t by (simp add: hasCompanyJS_def)
      have "segment hasCompanyJS (rows ! i # drop (Suc i) rows)
          = take 3 (rows ! i # drop (Suc i) rows) # segment hasCompanyJS (drop 2 (drop (Suc i) rows))"
        using P by simp
      then have "segment hasCompanyJS (drop i rows) = ?b # segment hasCompanyJS (drop (i + 3) rows)"
        unfolding dd d [symmetric] .
      with l show ?thesis by simp
    qed
  qed
qed

lemma tidyPanel_segments:
  "tidyPanel rows years =
     (if rows = [] then []
      else concat (map (\<lambda>b. map (blockRecord (rows ! 0) years b) years) (segment hasCompany (tl rows))))"
  by (simp add: tidyPanel_def Let_def tidyPanel_loop_segments drop_Suc)

lemma tidyPanelJS_segments:
  "tidyPanelJS rows years =
     concat (map (\<lambda>b. map (blockRecordJS b) years) (segment hasCompanyJS rows))"
  by (simp add: tidyPanelJS_def tidyPanelJS_loop_segments)

lemma Year_blockRecord: "Year (blockRecord header years b year) = year"
  by (simp add: blockRecord_def panelRecord_def Let_def)

lemma Year_blockRecordJS: "Year (blockRecordJS b year) = year"
  by (simp add: blockRecordJS_def panelRecordJS_def Let_def)

lemma years_of_blocks:
  assumes "\<And>b year. Year (f b year) = year"
  shows "map Year (concat (map (\<lambda>b. map (f b) years) bs)) = concat (replicate (length bs) years)"
  by (induction bs) (simp_all add: assms comp_def)

lemma count_year_of_blocks:
  assumes "\<And>b year. Year (f b year) = year"
  shows "length (filter (\<lambda>r. Year r = y) (concat (map (\<lambda>b. map (f b) years) bs)))
           = length bs * length (filter (\<lambda>year. year = y) years)"
  by (induction bs) (simp_all add: assms filter_map comp_def)

lemma map_of_fold_update_fun:
  assumes "\<And>k. map_of m0 k = (if k \<in> A then Some (g k) else None)"
  shows "map_of (foldl (\<lambda>m (k, v). AList.update k v m) m0 (map (\<lambda>x. (f x, g (f x))) xs)) k
           = (if k \<in> A \<union> f ` set xs then Some (g k) else None)"
  using assms
proof (induction xs arbitrary: m0 A)
  case Nil
  then show ?case by simp
next
  case (Cons x xs)
  have "map_of (AList.update (f x) (g (f x)) m0) k' = (if k' \<in> insert (f x) A then Some (g k') else None)"
    for k' by (simp add: update_conv' Cons.prems)
  from Cons.IH [of "AList.update (f x) (g (f x)) m0" "insert (f x) A", OF this]
  show ?case by simp
qed

lemma yearIndex_lookup:
  "y \<in> set years \<Longrightarrow>
   map_of (yearIndex header years) (string_of_int y) = Some (js_indexOf header (Str (string_of_int y)))"
  unfolding yearIndex_def new_Map_def
  using map_of_fold_update_fun [of "[]" "{}" "\<lambda>s. js_indexOf header (Str s)" string_of_int years
          "string_of_int y"]
  by auto

lemma js_indexOf_absent: "x \<notin> set xs \<Longrightarrow> js_indexOf xs x = - 1"
  by (induction xs) (auto simp: Let_def)

lemma blockRecord_absent:
  assumes "y \<in> set years" "Str (string_of_int y) \<notin> set header"
  shows "MarketCap (blockRecord header years b y) = None \<and>
         Revenue (blockRecord header years b y) = None \<and>
         ValRev (blockRecord header years b y) = None"
  using assms
  by (simp add: blockRecord_def panelRecord_def Let_def yearIndex_lookup js_indexOf_absent
        cell_at_opt_def cell_at_def parseNumber_def)

lemma segment_subset: "b \<in> set (segment P rs) \<Longrightarrow> set b \<subseteq> set rs"
proof (induction P rs rule: segment.induct)
  case (1 P)
  then show ?case by simp
next
  case (2 P r rs)
  show ?case
  proof (cases "P r")
    case False
    with 2 show ?thesis by auto
  next
    case True
    from "2.prems" True consider "b = take 3 (r # rs)" | "b \<in> set (segment P (drop 2 rs))" by auto
    then show ?thesis
    proof cases
      case 1
      then show ?thesis using set_take_subset [of 3 "r # rs"] by simp
    next
      case 2
      then have "set b \<subseteq> set (drop 2 rs)" using "2.IH"(1) True by simp
      then show ?thesis using set_drop_subset [of 2 rs] by auto
    qed
  qed
qed

lemma findMetric_absent:
  assumes "\<forall>r \<in> set block. r col = None"
  shows "getProp (findMetric block name) col = Undefined"
proof (cases "find (\<lambda>r. getProp r ''Metric'' = Str name) block")
  case None
  then show ?thesis by (simp add: findMetric_def getProp_def)
next
  case (Some r)
  then have "r \<in> set block" by (auto simp: find_Some_iff)
  with assms have "r col = None" by blast
  with Some show ?thesis by (simp add: findMetric_def getProp_def)
qed

lemma blockRecordJS_absent:
  assumes "\<forall>r \<in> set b. r (string_of_int y) = None"
  shows "MarketCap (blockRecordJS b y) = None \<and>
         Revenue (blockRecordJS b y) = None \<and>
         ValRev (blockRecordJS b y) = None"
  by (simp add: blockRecordJS_def panelRecordJS_def Let_def findMetric_absent [OF assms]
        js_Number_def orNull_def)

lemmas tidy_eval = tidyPanel_def tidyPanel_loop.simps panelRecord_def yearIndex_def new_Map_def
  cell_at_def cell_at_opt_def row_or_empty_def truthy_def string_of_int_def string_of_nat.simps
  parseNumber_def number_defs

lemmas tidyJS_eval = tidyPanelJS_def tidyPanelJS_loop.simps panelRecordJS_def findMetric_def
  getProp_def truthy_def js_slice_def string_of_int_def string_of_nat.simps number_defs

subsection \<open>Claims about the tidier\<close>

text \<open>
  C5. \<open>parseNumber\<close> reads the cell \<open>"0"\<close> as the number \<open>0\<close> and \<open>"1,234"\<close> as \<open>1234\<close>. The
  first generation parses a cell with \<open>Number(cell) || null\<close>: it takes \<open>0\<close> for null, since \<open>0\<close>
  is falsy, and does not strip the thousands separator, so both cells come out null.
\<close>

theorem tidyPanelJS_zero_cell_is_null:
  "tidyPanelJS
     [[''Company'' \<mapsto> Str ''A'', ''Metric'' \<mapsto> Str ''Revenue ($bn)'', ''2020'' \<mapsto> Str ''0'', ''2021'' \<mapsto> Str ''1,234'']]
     [2020, 2021]
   = [\<lparr>Company = Str ''A'', Year = 2020, MarketCap = None, Revenue = None, ValRev = None\<rparr>,
      \<lparr>Company = Str ''A'', Year = 2021, MarketCap = None, Revenue = None, ValRev = None\<rparr>] \<and>
   parseNumber (Str ''0'') = Some 0 \<and> parseNumber (Str ''1,234'') = Some 1234"
  by (simp add: tidyJS_eval parseNumber_def)

text \<open>
  C6, as the specification states it, lets the output hold no record for a target year that
  is missing from the header. Both tidiers emit the record of every block for such a year;
  its three metrics are null.
\<close>

theorem absent_year_still_has_records:
  "Str (string_of_int 2021) \<notin> set [Str ''Company'', Str ''Metric'', Str ''2020''] \<and>
   tidyPanel
     [[Str ''Company'', Str ''Metric'', Str ''2020''],
      [Str ''A'', Str ''Market Cap ($bn)'', Str ''5'']]
     [2021]
   = [\<lparr>Company = Str ''A'', Year = 2021, MarketCap = None, Revenue = None, ValRev = None\<rparr>] \<and>
   tidyPanelJS
     [[''Company'' \<mapsto> Str ''A'', ''Metric'' \<mapsto> Str ''Market Cap ($bn)'', ''2020'' \<mapsto> Str ''5'']]
     [2021]
   = [\<lparr>Company = Str ''A'', Year = 2021, MarketCap = None, Revenue = None, ValRev = None\<rparr>]"
  by (simp add: tidy_eval tidyJS_eval)

text \<open>
  C6, amended. For a target year whose label is not in the header row (for object rows: is
  a key of no row), the tidy output still holds one record per company block for each
  occurrence of the year in the target list, and in every record of that year \<open>MarketCap\<close>,
  \<open>Revenue\<close> and \<open>ValRev\<close> are null. Nothing is raised.
\<close>

theorem absent_year_records_are_null:
  assumes "Str (string_of_int y) \<notin> set (rows ! 0)"
    and "\<forall>row \<in> set objs. row (string_of_int y) = None"
  shows "(\<forall>r \<in> set (tidyPanel rows years).
            Year r = y \<longrightarrow> MarketCap r = None \<and> Revenue r = None \<and> ValRev r = None) \<and>
         length (filter (\<lambda>r. Year r = y) (tidyPanel rows years))
           = length (segment hasCompany (tl rows)) * length (filter (\<lambda>year. year = y) years) \<and>
         (\<forall>r \<in> set (tidyPanelJS objs years).
            Year r = y \<longrightarrow> MarketCap r = None \<and> Revenue r = None \<and> ValRev r = None) \<and>
         length (filter (\<lambda>r. Year r = y) (tidyPanelJS objs years))
           = length (segment hasCompanyJS objs) * length (filter (\<lambda>year. year = y) years)"
proof (intro conjI ballI impI)
  fix r assume r: "r \<in> set (tidyPanel rows years)" "Year r = y"
  then obtain b year where "year \<in> set years" "r = blockRecord (rows ! 0) years b year"
    by (auto simp: tidyPanel_segments split: if_splits)
  with r(2) have "y \<in> set years" "r = blockRecord (rows ! 0) years b y"
    by (simp_all add: Year_blockRecord)
  with blockRecord_absent [OF this(1) assms(1)]
  show "MarketCap r = None" "Revenue r = None" "ValRev r = None" by simp_all
next
  show "length (filter (\<lambda>r. Year r = y) (tidyPanel rows years))
      = length (segment hasCompany (tl rows)) * length (filter (\<lambda>year. year = y) years)"
    by (simp add: tidyPanel_segments count_year_of_blocks [of "blockRecord (rows ! 0) years"]
          Year_blockRecord)
next
  fix r assume r: "r \<in> set (tidyPanelJS objs years)" "Year r = y"
  then obtain b year where b: "b \<in> set (segment hasCompanyJS objs)" "r = blockRecordJS b year"
    by (auto simp: tidyPanelJS_segments)
  with r(2) have e: "r = blockRecordJS b y" by (simp add: Year_blockRecordJS)
  have "\<forall>row \<in> set b. row (string_of_int y) = None"
    using segment_subset [OF b(1)] assms(2) by blast
  from blockRecordJS_absent [OF this] e
  show "MarketCap r = None" "Revenue r = None" "ValRev r = None" by simp_all
next
  show "length (filter (\<lambda>r. Year r = y) (tidyPanelJS objs years))
      = length (segment hasCompanyJS objs) * length (filter (\<lambda>year. year = y) years)"
    by (simp add: tidyPanelJS_segments count_year_of_blocks [of blockRecordJS] Year_blockRecordJS)
qed

theorem absent_year_records_are_null_witness:
  "Str (string_of_int 2021) \<notin> set ([[Str ''Company'', Str ''Metric'', Str ''2020''],
      [Str ''A'', Str ''Market Cap ($bn)'', Str ''5''],
      [Str [], Str ''Revenue ($bn)'', Str ''2'']] ! 0) \<and>
   length (filter (\<lambda>r. Year r = 2021)
     (tidyPanel [[Str ''Company'', Str ''Metric'', Str ''2020''],
      [Str ''A'', Str ''Market Cap ($bn)'', Str ''5''],
      [Str [], Str ''Revenue ($bn)'', Str ''2'']] [2020, 2021])) = 1 \<and>
   length (filter (\<lambda>r. Year r = 2021)
     (tidyPanelJS [[''Company'' \<mapsto> Str ''A'', ''Metric'' \<mapsto> Str ''Market Cap ($bn)'', ''2020'' \<mapsto> Str ''5'']]
        [2020, 2021])) = 1"
proof -
  let ?rows = "[[Str ''Company'', Str ''Metric'', Str ''2020''],
      [Str ''A'', Str ''Market Cap ($bn)'', Str ''5''],
      [Str [], Str ''Revenue ($bn)'', Str ''2'']]"
  let ?objs = "[[''Company'' \<mapsto> Str ''A'', ''Metric'' \<mapsto> Str ''Market Cap ($bn)'', ''2020'' \<mapsto> Str ''5'']]"
  have h1: "Str (string_of_int 2021) \<notin> set (?rows ! 0)"
    by (simp add: string_of_int_def string_of_nat.simps)
  have h2: "\<forall>row \<in> set ?objs. row (string_of_int 2021) = None"
    by (simp add: string_of_int_def string_of_nat.simps)
  have s1: "length (segment hasCompany (tl ?rows)) = 1"
    by (simp add: hasCompany_def truthy_def cell_at_def)
  have s2: "length (segment hasCompanyJS ?objs) = 1"
    by (simp add: hasCompanyJS_def truthy_def getProp_def)
  have f: "length (filter (\<lambda>year. year = 2021) [2020, 2021 :: int]) = 1" by simp
  from absent_year_records_are_null [of 2021 ?rows ?objs "[2020, 2021]", OF h1 h2]
  have "length (filter (\<lambda>r. Year r = 2021) (tidyPanel ?rows [2020, 2021]))
           = length (segment hasCompany (tl ?rows)) * length (filter (\<lambda>year. year = 2021) [2020, 2021 :: int])"
    and "length (filter (\<lambda>r. Year r = 2021) (tidyPanelJS ?objs [2020, 2021]))
           = length (segment hasCompanyJS ?objs) * length (filter (\<lambda>year. year = 2021) [2020, 2021 :: int])"
    by blast+
  then show ?thesis unfolding s1 s2 f using h1 by simp
qed

text \<open>
  C7, as the specification states it, orders the records of a company by ascending year for
  every target-year list. The records of a block follow the target list as it is given: for
  the list \<open>[2021, 2020]\<close> the years of the output are \<open>2021, 2020\<close>.
\<close>

theorem tidy_years_follow_list_order:
  "map Year (tidyPanel
     [[Str ''Company'', Str ''Metric'', Str ''2020'', Str ''2021''],
      [Str ''A'', Str ''Market Cap ($bn)'', Str ''5'', Str ''6'']]
     [2021, 2020]) = [2021, 2020] \<and>
   \<not> sorted (map Year (tidyPanel
     [[Str ''Company'', Str ''Metric'', Str ''2020'', Str ''2021''],
      [Str ''A'', Str ''Market Cap ($bn)'', Str ''5'', Str ''6'']]
     [2021, 2020])) \<and>
   map Year (tidyPanelJS
     [[''Company'' \<mapsto> Str ''A'', ''Metric'' \<mapsto> Str ''Market Cap ($bn)'', ''2020'' \<mapsto> Str ''5'']]
     [2021, 2020]) = [2021, 2020]"
  by (simp add: tidy_eval tidyJS_eval)

text \<open>
  C7, amended. The output is the concatenation, in block order, of the records of every
  company block; a block yields exactly one record per entry of the target-year list, in the
  order of that list (ascending year when the list is ascending, as at every call site). A
  row with an empty company identifier is skipped by one row, and a block is consumed only
  where a row with a company identifier starts it.
\<close>

theorem tidy_blocks_in_order:
  "tidyPanel rows years =
     (if rows = [] then []
      else concat (map (\<lambda>b. map (blockRecord (rows ! 0) years b) years)
                     (segment hasCompany (tl rows)))) \<and>
   tidyPanelJS objs years =
     concat (map (\<lambda>b. map (blockRecordJS b) years) (segment hasCompanyJS objs)) \<and>
   map Year (tidyPanel rows years) = concat (replicate (length (segment hasCompany (tl rows))) years) \<and>
   map Year (tidyPanelJS objs years) = concat (replicate (length (segment hasCompanyJS objs)) years) \<and>
   length (tidyPanel rows years) = length (segment hasCompany (tl rows)) * length years \<and>
   length (tidyPanelJS objs years) = length (segment hasCompanyJS objs) * length years"
proof -
  have y1: "map Year (tidyPanel rows years)
      = concat (replicate (length (segment hasCompany (tl rows))) years)"
    by (simp add: tidyPanel_segments years_of_blocks [of "blockRecord (rows ! 0) years"]
          Year_blockRecord)
  have y2: "map Year (tidyPanelJS objs years)
      = concat (replicate (length (segment hasCompanyJS objs)) years)"
    by (simp add: tidyPanelJS_segments years_of_blocks [of blockRecordJS] Year_blockRecordJS)
  have l: "length (concat (replicate n years)) = n * length years" for n
    by (induction n) simp_all
  have l1: "length (tidyPanel rows years) = length (segment hasCompany (tl rows)) * length years"
    using arg_cong [OF y1, of length] by (simp add: l)
  have l2: "length (tidyPanelJS objs years) = length (segment hasCompanyJS objs) * length years"
    using arg_cong [OF y2, of length] by (simp add: l)
  show ?thesis
    using y1 y2 l1 l2 tidyPanel_segments [of rows years] tidyPanelJS_segments [of objs years]
    by simp
qed

theorem tidy_blocks_in_order_witness:
  "tidyPanel
     [[Str ''Company'', Str ''Metric'', Str ''2020'', Str ''2021''],
      [Str [], Str [], Str [], Str []],
      [Str ''A'', Str ''Market Cap ($bn)'', Str ''10'', Str ''1,200''],
      [Str [], Str ''Revenue ($bn)'', Str ''n/a'', Str ''0''],
      [Str [], Str ''Valuation/Revenue'', Str ''2.5'', Str ''x''],
      [Str ''B'', Str ''Market Cap ($bn)'', Str ''7'']]
     [2020, 2021]
   = [\<lparr>Company = Str ''A'', Year = 2020, MarketCap = Some 10, Revenue = None, ValRev = Some (5 / 2)\<rparr>,
      \<lparr>Company = Str ''A'', Year = 2021, MarketCap = Some 1200, Revenue = Some 0, ValRev = None\<rparr>,
      \<lparr>Company = Str ''B'', Year = 2020, MarketCap = Some 7, Revenue = None, ValRev = None\<rparr>,
      \<lparr>Company = Str ''B'', Year = 2021, MarketCap = None, Revenue = None, ValRev = None\<rparr>]"
proof -
  let ?rows = "[[Str ''Company'', Str ''Metric'', Str ''2020'', Str ''2021''],
      [Str [], Str [], Str [], Str []],
      [Str ''A'', Str ''Market Cap ($bn)'', Str ''10'', Str ''1,200''],
      [Str [], Str ''Revenue ($bn)'', Str ''n/a'', Str ''0''],
      [Str [], Str ''Valuation/Revenue'', Str ''2.5'', Str ''x''],
      [Str ''B'', Str ''Market Cap ($bn)'', Str ''7'']]"
  have seg: "segment hasCompany (tl ?rows)
      = [[[Str ''A'', Str ''Market Cap ($bn)'', Str ''10'', Str ''1,200''],
          [Str [], Str ''Revenue ($bn)'', Str ''n/a'', Str ''0''],
          [Str [], Str ''Valuation/Revenue'', Str ''2.5'', Str ''x'']],
         [[Str ''B'', Str ''Market Cap ($bn)'', Str ''7'']]]"
    by (simp add: hasCompany_def truthy_def cell_at_def)
  have "tidyPanel ?rows [2020, 2021]
      = concat (map (\<lambda>b. map (blockRecord (?rows ! 0) [2020, 2021] b) [2020, 2021])
                  (segment hasCompany (tl ?rows)))"
    using tidy_blocks_in_order [of ?rows "[2020, 2021]"] by simp
  then show ?thesis
    unfolding seg
    by (simp add: blockRecord_def panelRecord_def yearIndex_def new_Map_def
        cell_at_def cell_at_opt_def row_or_empty_def truthy_def string_of_int_def
        string_of_nat.simps parseNumber_def number_defs)
qed

section \<open>Log aggregator: \<open>computeAvgLogPsByYear\<close>, \<open>groupMeanByYear\<close>\<close>

subsection \<open>The code\<close>

text \<open>
  The aggregation works on records whose \<open>ValRev\<close> is a finite number or null. The mean of a
  list is the sum over the count.
\<close>

definition mean :: "real list \<Rightarrow> real" where
  "mean xs = sum_list xs / real (length xs)"

text \<open>The objects \<open>{ years, values }\<close> and \<open>{ labels, values }\<close> the two functions return.\<close>

record YearSeries =
  years_of :: "int list"
  values_of :: "real list"

record LabelledSeries =
  labels_of :: "int list"
  lvalues_of :: "real list"

text \<open>
  \<^verbatim>\<open>
  function computeAvgLogPsByYear(records) {
    const byYear = new Map();
    records.forEach((r) => {
      if (r.ValRev && r.ValRev > 0) {
        if (!byYear.has(r.Year)) byYear.set(r.Year, []);
        byYear.get(r.Year).push(r.ValRev);
      }
    });
    const years = Array.from(byYear.keys()).sort((a, b) => a - b);
    const values = years.map((y) => {
      const arr = byYear.get(y);
      const avg = arr.reduce((s, v) => s + v, 0) / arr.length;
      return Math.log(avg);
    });
    return { years, values };
  }
  \<close>
  \<open>byYear_step\<close> is the body of the \<open>forEach\<close>; pushing to the array a key holds is an update
  of that key.
\<close>

definition byYear_step :: "(int \<times> real list) list \<Rightarrow> real TidyRecord \<Rightarrow> (int \<times> real list) list" where
  "byYear_step byYear r =
     (case ValRev r of
        None \<Rightarrow> byYear
      | Some v \<Rightarrow>
          if v \<noteq> 0 \<and> v > 0 then
            (let byYear1 = (if map_of byYear (Year r) = None
                            then AList.update (Year r) [] byYear else byYear)
             in AList.update (Year r) (the (map_of byYear1 (Year r)) @ [v]) byYear1)
          else byYear)"

definition computeAvgLogPsByYear :: "real TidyRecord list \<Rightarrow> YearSeries" where
  "computeAvgLogPsByYear records =
     (let byYear = foldl byYear_step [] records;
          years = sort (map fst byYear);
          vs = map (\<lambda>y. let arr = the (map_of byYear y);
                            avg = foldl (+) 0 arr / real (length arr)
                        in ln avg) years
      in \<lparr>years_of = years, values_of = vs\<rparr>)"

text \<open>
  \<^verbatim>\<open>
  function groupMeanByYear(data) {
    const map = new Map();
    data.forEach((row) => {
      if (!row.ValRev || row.ValRev <= 0) return;
      const arr = map.get(row.Year) || [];
      arr.push(row.ValRev);
      map.set(row.Year, arr);
    });
    const labels = Array.from(map.keys()).sort((a, b) => a - b);
    const values = labels.map((year) => {
      const nums = map.get(year);
      const avg = nums.reduce((sum, n) => sum + n, 0) / nums.length;
      return Math.log(avg);
    });
    return { labels, values };
  }
  \<close>
\<close>

definition groupMean_step :: "(int \<times> real list) list \<Rightarrow> real TidyRecord \<Rightarrow> (int \<times> real list) list" where
  "groupMean_step m row =
     (case ValRev row of
        None \<Rightarrow> m
      | Some v \<Rightarrow>
          if v = 0 \<or> v \<le> 0 then m
          else (let arr = (case map_of m (Year row) of None \<Rightarrow> [] | Some a \<Rightarrow> a)
                in AList.update (Year row) (arr @ [v]) m))"

definition groupMeanByYear :: "real TidyRecord list \<Rightarrow> LabelledSeries" where
  "groupMeanByYear data =
     (let m = foldl groupMean_step [] data;
          labels = sort (map fst m);
          vs = map (\<lambda>year. let nums = the (map_of m year);
                               avg = foldl (+) 0 nums / real (length nums)
                           in ln avg) labels
      in \<lparr>labels_of = labels, lvalues_of = vs\<rparr>)"

subsection \<open>The aggregate of the specification\<close>

text \<open>
  A value is valid when it is not null and not \<open>\<le> 0\<close>. The values of a year are the valid
  values of the records of that year, in input order; the years of the series are the
  distinct years of the records with a valid value, ascending.
\<close>

definition valid_value :: "real TidyRecord \<Rightarrow> bool" where
  "valid_value r = (case ValRev r of None \<Rightarrow> False | Some v \<Rightarrow> 0 < v)"

definition year_values :: "real TidyRecord list \<Rightarrow> int \<Rightarrow> real list" where
  "year_values rs y = map (the \<circ> ValRev) (filter (\<lambda>r. valid_value r \<and> Year r = y) rs)"

definition valid_years :: "real TidyRecord list \<Rightarrow> int list" where
  "valid_years rs = sorted_list_of_set (Year ` {r \<in> set rs. valid_value r})"

subsection \<open>The map built by the loop\<close>

lemma groupMean_step_eq: "groupMean_step m r = byYear_step m r"
  by (cases "ValRev r"; cases "map_of m (Year r)")
     (auto simp: groupMean_step_def byYear_step_def Let_def update_conv')

lemma year_values_snoc:
  "year_values (rs @ [r]) y =
     year_values rs y @ (if valid_value r \<and> Year r = y then [the (ValRev r)] else [])"
  by (simp add: year_values_def)

lemma byYear_step_invalid: "\<not> valid_value r \<Longrightarrow> byYear_step m r = m"
  by (auto simp: byYear_step_def valid_value_def split: option.splits)

lemma byYear_step_valid:
  assumes "valid_value r"
  shows "map_of (byYear_step m r) =
     (map_of m)(Year r \<mapsto> (case map_of m (Year r) of None \<Rightarrow> [] | Some a \<Rightarrow> a) @ [the (ValRev r)])"
  using assms
  by (cases "map_of m (Year r)")
     (auto simp: byYear_step_def valid_value_def Let_def update_conv' split: option.splits)

lemma byYear_step_distinct: "distinct (map fst m) \<Longrightarrow> distinct (map fst (byYear_step m r))"
  by (auto simp: byYear_step_def Let_def distinct_update split: option.splits)

lemma byYear_invariant:
  "distinct (map fst (foldl byYear_step [] rs)) \<and>
   (\<forall>y. map_of (foldl byYear_step [] rs) y =
        (if year_values rs y = [] then None else Some (year_values rs y)))"
proof (induction rs rule: rev_induct)
  case Nil
  show ?case by (simp add: year_values_def)
next
  case (snoc r rs)
  let ?m = "foldl byYear_step [] rs"
  have d: "distinct (map fst (byYear_step ?m r))"
    using snoc by (simp add: byYear_step_distinct)
  have "map_of (byYear_step ?m r) y =
        (if year_values (rs @ [r]) y = [] then None else Some (year_values (rs @ [r]) y))" for y
  proof (cases "valid_value r")
    case False
    then show ?thesis using snoc by (simp add: byYear_step_invalid year_values_snoc)
  next
    case True
    then show ?thesis using snoc
      by (simp add: byYear_step_valid year_values_snoc)
  qed
  with d show ?case by simp
qed

lemma year_values_empty_iff: "year_values rs y = [] \<longleftrightarrow> y \<notin> Year ` {r \<in> set rs. valid_value r}"
  by (auto simp: year_values_def filter_empty_conv)

lemma byYear_keys:
  "set (map fst (foldl byYear_step [] rs)) = Year ` {r \<in> set rs. valid_value r}"
proof -
  let ?m = "foldl byYear_step [] rs"
  have "set (map fst ?m) = dom (map_of ?m)" by (simp add: dom_map_of_conv_image_fst)
  also have "\<dots> = {y. year_values rs y \<noteq> []}"
    using byYear_invariant [of rs] by (auto simp: dom_def)
  also have "\<dots> = Year ` {r \<in> set rs. valid_value r}"
    by (auto simp: year_values_empty_iff)
  finally show ?thesis .
qed

lemma sort_distinct: "distinct xs \<Longrightarrow> sort xs = sorted_list_of_set (set xs)"
  by (simp add: sorted_list_of_set_sort_remdups distinct_remdups_id)

lemma byYear_sorted_keys: "sort (map fst (foldl byYear_step [] rs)) = valid_years rs"
proof -
  have "distinct (map fst (foldl byYear_step [] rs))" using byYear_invariant by blast
  then have "sort (map fst (foldl byYear_step [] rs))
      = sorted_list_of_set (set (map fst (foldl byYear_step [] rs)))"
    by (rule sort_distinct)
  then show ?thesis unfolding byYear_keys valid_years_def .
qed

lemma foldl_plus_sum_list: "foldl (+) a xs = a + sum_list (xs :: real list)"
  by (induction xs arbitrary: a) simp_all

lemma byYear_values:
  "map (\<lambda>y. ln (foldl (+) 0 (the (map_of (foldl byYear_step [] rs) y))
                  / real (length (the (map_of (foldl byYear_step [] rs) y))))) (valid_years rs)
   = map (\<lambda>y. ln (mean (year_values rs y))) (valid_years rs)"
proof (rule map_cong [OF refl])
  fix y assume "y \<in> set (valid_years rs)"
  then have "y \<in> Year ` {r \<in> set rs. valid_value r}" by (simp add: valid_years_def)
  then have "year_values rs y \<noteq> []" by (simp add: year_values_empty_iff)
  then have "map_of (foldl byYear_step [] rs) y = Some (year_values rs y)"
    using byYear_invariant [of rs] by simp
  then show "ln (foldl (+) 0 (the (map_of (foldl byYear_step [] rs) y))
                  / real (length (the (map_of (foldl byYear_step [] rs) y))))
             = ln (mean (year_values rs y))"
    by (simp add: foldl_plus_sum_list mean_def)
qed

lemma computeAvgLogPsByYear_eq:
  "computeAvgLogPsByYear rs =
     \<lparr>years_of = valid_years rs, values_of = map (\<lambda>y. ln (mean (year_values rs y))) (valid_years rs)\<rparr>"
  by (simp add: computeAvgLogPsByYear_def Let_def byYear_sorted_keys byYear_values)

lemma groupMean_fold: "foldl groupMean_step m rs = foldl byYear_step m rs"
  by (induction rs arbitrary: m) (simp_all add: groupMean_step_eq)

lemma groupMeanByYear_eq:
  "groupMeanByYear rs =
     \<lparr>labels_of = valid_years rs, lvalues_of = map (\<lambda>y. ln (mean (year_values rs y))) (valid_years rs)\<rparr>"
  by (simp add: groupMeanByYear_def Let_def groupMean_fold byYear_sorted_keys byYear_values)

lemma valid_years_empty: "filter valid_value rs = [] \<Longrightarrow> valid_years rs = []"
  by (simp add: valid_years_def filter_empty_conv)

subsection \<open>Claim about the aggregator\<close>

text \<open>
  C1. Mean mode groups the \<open>ValRev\<close> values by year, leaving out every value that is null or
  \<open>\<le> 0\<close>, and yields for each year the natural logarithm of the arithmetic mean of the
  surviving values (the log of the mean). The years of the result are exactly the distinct
  years with at least one valid value, ascending; a year without a valid value is absent, and
  records without any valid value give the empty series. Both generations of the aggregator
  compute this.
\<close>

theorem log_of_mean_by_year:
  "computeAvgLogPsByYear rs =
     \<lparr>years_of = valid_years rs,
      values_of = map (\<lambda>y. ln (mean (year_values rs y))) (valid_years rs)\<rparr> \<and>
   groupMeanByYear rs =
     \<lparr>labels_of = valid_years rs,
      lvalues_of = map (\<lambda>y. ln (mean (year_values rs y))) (valid_years rs)\<rparr> \<and>
   set (valid_years rs) = Year ` {r \<in> set rs. valid_value r} \<and>
   sorted_wrt (<) (valid_years rs) \<and>
   (filter valid_value rs = [] \<longrightarrow>
      computeAvgLogPsByYear rs = \<lparr>years_of = [], values_of = []\<rparr> \<and>
      groupMeanByYear rs = \<lparr>labels_of = [], lvalues_of = []\<rparr>)"
proof -
  have s: "set (valid_years rs) = Year ` {r \<in> set rs. valid_value r}"
    by (simp add: valid_years_def)
  have o: "sorted_wrt (<) (valid_years rs)"
    by (simp add: valid_years_def strict_sorted_iff)
  show ?thesis
    using s o by (simp add: computeAvgLogPsByYear_eq groupMeanByYear_eq valid_years_empty)
qed

theorem log_of_mean_by_year_witness:
  "computeAvgLogPsByYear
     [\<lparr>Company = Str ''A'', Year = 2021, MarketCap = None, Revenue = None, ValRev = Some 30\<rparr>,
      \<lparr>Company = Str ''A'', Year = 2020, MarketCap = None, Revenue = None, ValRev = Some 0\<rparr>,
      \<lparr>Company = Str ''B'', Year = 2020, MarketCap = None, Revenue = None, ValRev = Some (- 5)\<rparr>,
      \<lparr>Company = Str ''C'', Year = 2020, MarketCap = None, Revenue = None, ValRev = Some 10\<rparr>,
      \<lparr>Company = Str ''C'', Year = 2019, MarketCap = None, Revenue = None, ValRev = None\<rparr>,
      \<lparr>Company = Str ''C'', Year = 2021, MarketCap = None, Revenue = None, ValRev = Some 10\<rparr>]
     = \<lparr>years_of = [2020, 2021], values_of = [ln 10, ln 20]\<rparr> \<and>
   filter valid_value
     [\<lparr>Company = Str ''A'', Year = 2020, MarketCap = None, Revenue = None, ValRev = Some 0\<rparr>,
      \<lparr>Company = Str ''C'', Year = 2019, MarketCap = None, Revenue = None, ValRev = None\<rparr>] = [] \<and>
   groupMeanByYear
     [\<lparr>Company = Str ''A'', Year = 2020, MarketCap = None, Revenue = None, ValRev = Some 0\<rparr>,
      \<lparr>Company = Str ''C'', Year = 2019, MarketCap = None, Revenue = None, ValRev = None\<rparr>]
     = \<lparr>labels_of = [], lvalues_of = []\<rparr>"
proof -
  let ?none = "[\<lparr>Company = Str ''A'', Year = 2020, MarketCap = None, Revenue = None, ValRev = Some (0 :: real)\<rparr>,
      \<lparr>Company = Str ''C'', Year = 2019, MarketCap = None, Revenue = None, ValRev = None\<rparr>]"
  have f: "filter valid_value ?none = []" by (simp add: valid_value_def)
  have g: "groupMeanByYear ?none = \<lparr>labels_of = [], lvalues_of = []\<rparr>"
    using log_of_mean_by_year [of ?none] f by blast
  have c: "computeAvgLogPsByYear
     [\<lparr>Company = Str ''A'', Year = 2021, MarketCap = None, Revenue = None, ValRev = Some 30\<rparr>,
      \<lparr>Company = Str ''A'', Year = 2020, MarketCap = None, Revenue = None, ValRev = Some 0\<rparr>,
      \<lparr>Company = Str ''B'', Year = 2020, MarketCap = None, Revenue = None, ValRev = Some (- 5)\<rparr>,
      \<lparr>Company = Str ''C'', Year = 2020, MarketCap = None, Revenue = None, ValRev = Some 10\<rparr>,
      \<lparr>Company = Str ''C'', Year = 2019, MarketCap = None, Revenue = None, ValRev = None\<rparr>,
      \<lparr>Company = Str ''C'', Year = 2021, MarketCap = None, Revenue = None, ValRev = Some 10\<rparr>]
     = \<lparr>years_of = [2020, 2021], values_of = [ln 10, ln 20]\<rparr>"
    by (simp add: computeAvgLogPsByYear_def byYear_step_def Let_def)
  show ?thesis using c f g by simp
qed

section \<open>Series aligner: \<open>makeAligned\<close>, \<open>averagePlot\<close>\<close>

subsection \<open>The code\<close>

text \<open>
  The object \<open>{ years, dotcom, bigTech, pureAI }\<close> of the first generation and the
  \<open>{ labels, datasets }\<close> of the second (of a dataset only its \<open>data\<close> is kept).
\<close>

record Series =
  series_years :: "int list"
  dotcom :: "real option list"
  bigTech :: "real option list"
  pureAI :: "real option list"

record AveragePlot =
  plot_labels :: "int list"
  datasets :: "real option list list"

text \<open>
  \<^verbatim>\<open>
  const series = useMemo(() => {
    if (!dotcom.length && !aiPure.length && !aiNiche.length) return null;
    const dot = computeAvgLogPsByYear(dotcom);
    const big = computeAvgLogPsByYear(aiPure);
    const niche = computeAvgLogPsByYear(aiNiche);
    const allYearSet = new Set([...dot.years, ...big.years, ...niche.years]);
    const allYears = Array.from(allYearSet).sort((a, b) => a - b);
    const makeAligned = (years, values) => {
      const map = new Map(years.map((y, i) => [y, values[i]]));
      return allYears.map((y) => (map.has(y) ? map.get(y) : null));
    };
    return { years: allYears, dotcom: makeAligned(dot.years, dot.values),
             bigTech: makeAligned(big.years, big.values),
             pureAI: makeAligned(niche.years, niche.values) };
  }, [dotcom, aiPure, aiNiche]);
  \<close>
  \<open>makeAligned\<close> closes over \<open>allYears\<close>, here its first argument. \<open>alignSeries\<close> is the part of
  the body after the three aggregations.
\<close>

definition makeAligned :: "int list \<Rightarrow> int list \<Rightarrow> real list \<Rightarrow> real option list" where
  "makeAligned allYears years vals =
     (let m = new_Map (map (\<lambda>(i, y). (y, at_index vals i)) (enumerate 0 years))
      in map (\<lambda>y. if map_of m y \<noteq> None then the (map_of m y) else None) allYears)"

definition alignSeries :: "YearSeries \<Rightarrow> YearSeries \<Rightarrow> YearSeries \<Rightarrow> Series" where
  "alignSeries dot big niche =
     (let allYearSet = js_Set (years_of dot @ years_of big @ years_of niche);
          allYears = sort allYearSet
      in \<lparr>series_years = allYears,
          dotcom = makeAligned allYears (years_of dot) (values_of dot),
          bigTech = makeAligned allYears (years_of big) (values_of big),
          pureAI = makeAligned allYears (years_of niche) (values_of niche)\<rparr>)"

definition series ::
  "real TidyRecord list \<Rightarrow> real TidyRecord list \<Rightarrow> real TidyRecord list \<Rightarrow> Series option" where
  "series dotcomRecords aiPureRecords aiNicheRecords =
     (if dotcomRecords = [] \<and> aiPureRecords = [] \<and> aiNicheRecords = [] then None
      else Some (alignSeries (computeAvgLogPsByYear dotcomRecords)
                   (computeAvgLogPsByYear aiPureRecords)
                   (computeAvgLogPsByYear aiNicheRecords)))"

text \<open>
  \<^verbatim>\<open>
  const tracks = [ ... ].map((entry) => ({ ...groupMeanByYear(entry.data), ... }));
  const labels = Array.from(new Set(tracks.flatMap((t) => t.labels))).sort((a, b) => a - b);
  const datasets = tracks.map((track) => ({
    data: labels.map((year) => {
      const idx = track.labels.indexOf(year);
      return idx >= 0 ? track.values[idx] : null;
    }), ... }));
  return { labels, datasets };
  \<close>
\<close>

definition plotTracks :: "LabelledSeries list \<Rightarrow> AveragePlot" where
  "plotTracks tracks =
     (let ls = sort (js_Set (concat (map labels_of tracks)));
          ds = map (\<lambda>track.
                 map (\<lambda>year. let idx = js_indexOf (labels_of track) year
                             in if idx \<ge> 0 then at_index (lvalues_of track) (nat idx) else None) ls)
               tracks
      in \<lparr>plot_labels = ls, datasets = ds\<rparr>)"

definition averagePlot ::
  "real TidyRecord list \<Rightarrow> real TidyRecord list \<Rightarrow> real TidyRecord list \<Rightarrow> AveragePlot" where
  "averagePlot dotcomRecords aiPureRecords aiNicheRecords =
     plotTracks (map groupMeanByYear [dotcomRecords, aiPureRecords, aiNicheRecords])"

subsection \<open>Alignment in the specification's terms\<close>

text \<open>
  A value sequence \<open>out\<close> is aligned to \<open>axis\<close> for the series \<open>(ys, vs)\<close> when it has the
  length of the axis, is null at every year of the axis the series does not cover, and every
  year \<open>ys ! i\<close> of the series has a position on the axis, where the sequence holds the
  original value \<open>vs ! i\<close>.
\<close>

definition aligned_to :: "int list \<Rightarrow> int list \<Rightarrow> real list \<Rightarrow> real option list \<Rightarrow> bool" where
  "aligned_to axis ys vs out \<longleftrightarrow>
     length out = length axis \<and>
     (\<forall>j < length axis. axis ! j \<notin> set ys \<longrightarrow> out ! j = None) \<and>
     (\<forall>i < length ys.
        (\<exists>j < length axis. axis ! j = ys ! i) \<and>
        (\<forall>j < length axis. axis ! j = ys ! i \<longrightarrow> out ! j = Some (vs ! i)))"

subsection \<open>Sets, maps and lookups\<close>

lemma js_Set_fold:
  "set (foldl (\<lambda>s x. if x \<in> set s then s else s @ [x]) acc xs) = set acc \<union> set xs \<and>
   (distinct acc \<longrightarrow> distinct (foldl (\<lambda>s x. if x \<in> set s then s else s @ [x]) acc xs))"
  by (induction xs arbitrary: acc) auto

lemma set_js_Set: "set (js_Set xs) = set xs"
  by (simp add: js_Set_def js_Set_fold)

lemma distinct_js_Set: "distinct (js_Set xs)"
  using js_Set_fold [of "[]" xs] by (simp add: js_Set_def)

lemma sort_js_Set: "sort (js_Set xs) = sorted_list_of_set (set xs)"
  using sort_distinct [OF distinct_js_Set, of xs] by (simp add: set_js_Set)

lemma map_of_fold_update:
  "distinct (map fst es) \<Longrightarrow>
   map_of (foldl (\<lambda>m (k, v). AList.update k v m) m0 es) = map_of m0 ++ map_of es"
proof (induction es arbitrary: m0)
  case Nil
  show ?case by simp
next
  case (Cons e es)
  obtain k v where e: "e = (k, v)" by (cases e)
  have k: "map_of es k = None" using Cons.prems e by (simp add: map_of_eq_None_iff)
  have "map_of (foldl (\<lambda>m (k, v). AList.update k v m) m0 (e # es))
      = map_of (AList.update k v m0) ++ map_of es"
    using Cons e by simp
  also have "\<dots> = map_of m0 ++ map_of (e # es)"
    using k by (auto simp: e update_conv' map_add_def fun_eq_iff split: option.splits)
  finally show ?case .
qed

lemma map_of_new_Map: "distinct (map fst es) \<Longrightarrow> map_of (new_Map es) = map_of es"
  by (simp add: new_Map_def map_of_fold_update)

lemma entries_zip:
  assumes "length vs = length ys"
  shows "map (\<lambda>(i, y). (y, at_index vs i)) (enumerate 0 ys) = zip ys (map Some vs)"
  using assms by (auto simp: list_eq_iff_nth_eq nth_enumerate_eq at_index_def)

lemma map_of_zip_Some: "map_of (zip ys (map Some vs)) y = map_option Some (map_of (zip ys vs) y)"
  by (simp add: zip_map2 map_of_map)

lemma makeAligned_lookup:
  assumes "distinct ys" "length vs = length ys"
  shows "makeAligned axis ys vs = map (map_of (zip ys vs)) axis"
proof -
  have d: "distinct (map fst (zip ys (map Some vs)))" using assms by simp
  show ?thesis
    unfolding makeAligned_def Let_def entries_zip [OF assms(2)] map_of_new_Map [OF d]
      map_of_zip_Some
    by (auto split: option.splits)
qed

lemma indexOf_lookup:
  assumes "length vs = length ys"
  shows "(let idx = js_indexOf ys y in if idx \<ge> 0 then at_index vs (nat idx) else None)
     = map_of (zip ys vs) y"
  using assms
proof (induction ys arbitrary: vs)
  case Nil
  then show ?case by simp
next
  case (Cons a ys)
  then obtain b vs' where vs: "vs = b # vs'" by (cases vs) auto
  with Cons.prems have l: "length vs' = length ys" by simp
  show ?case
  proof (cases "a = y")
    case True
    then show ?thesis by (simp add: vs at_index_def)
  next
    case False
    have nn: "js_indexOf ys y \<ge> 0 \<Longrightarrow> nat (js_indexOf ys y + 1) = Suc (nat (js_indexOf ys y))"
      by simp
    show ?thesis
      using False Cons.IH [OF l]
      by (auto simp: vs Let_def at_index_def nn)
  qed
qed

lemma lookup_aligned:
  assumes "distinct ys" "length vs = length ys" "set ys \<subseteq> set axis"
  shows "aligned_to axis ys vs (map (map_of (zip ys vs)) axis)"
  unfolding aligned_to_def
proof (intro conjI allI impI)
  show "length (map (map_of (zip ys vs)) axis) = length axis" by simp
next
  fix j assume "j < length axis" "axis ! j \<notin> set ys"
  then show "map (map_of (zip ys vs)) axis ! j = None"
    using assms(2) by simp
next
  fix i assume i: "i < length ys"
  then have "ys ! i \<in> set axis" using assms(3) by auto
  then obtain j where j: "j < length axis" "axis ! j = ys ! i"
    by (auto simp: in_set_conv_nth)
  from j show "\<exists>j<length axis. axis ! j = ys ! i" by auto
next
  fix i j assume i: "i < length ys" and j: "j < length axis" "axis ! j = ys ! i"
  have "map_of (zip ys vs) (ys ! i) = Some (vs ! i)"
    using assms i by (simp add: map_of_zip_nth)
  with j show "map (map_of (zip ys vs)) axis ! j = Some (vs ! i)" by simp
qed


lemma strict_sorted_distinct: "sorted_wrt (<) (ys :: int list) \<Longrightarrow> distinct ys"
  by (simp add: strict_sorted_iff)

lemma track_aligned:
  assumes "sorted_wrt (<) ys" "length vs = length ys" "set ys \<subseteq> set axis"
  shows "aligned_to axis ys vs
           (map (\<lambda>year. let idx = js_indexOf ys year
                        in if idx \<ge> 0 then at_index vs (nat idx) else None) axis)"
proof -
  have eq: "(\<lambda>year. let idx = js_indexOf ys year
                     in if idx \<ge> 0 then at_index vs (nat idx) else None)
        = map_of (zip ys vs)"
    by (rule ext) (rule indexOf_lookup [OF assms(2)])
  show ?thesis
    unfolding eq by (rule lookup_aligned [OF strict_sorted_distinct [OF assms(1)] assms(2,3)])
qed

lemma makeAligned_aligned:
  assumes "sorted_wrt (<) ys" "length vs = length ys" "set ys \<subseteq> set axis"
  shows "aligned_to axis ys vs (makeAligned axis ys vs)"
  using lookup_aligned [OF strict_sorted_distinct [OF assms(1)] assms(2,3)]
  by (simp add: makeAligned_lookup [OF strict_sorted_distinct [OF assms(1)] assms(2)])

lemma set_sorted_union: "set (sorted_list_of_set (set (xs :: int list))) = set xs"
  by simp

subsection \<open>Claim about the aligner\<close>

text \<open>
  C2. For series with strictly increasing years and as many values as years, the aligned
  axis is the ascending duplicate-free union of the years of all series; every aligned
  sequence has the length of the axis, is null at each year its series does not cover, and
  holds every original \<open>(year, value)\<close> pair unchanged at the position of its year. This holds
  for the three series of \<open>makeAligned\<close> and for any list of tracks of \<open>averagePlot\<close>.
\<close>

theorem aligner_lossless:
  assumes "\<forall>t \<in> set tracks. sorted_wrt (<) (labels_of t) \<and> length (lvalues_of t) = length (labels_of t)"
    and "sorted_wrt (<) (years_of dot)" and "length (values_of dot) = length (years_of dot)"
    and "sorted_wrt (<) (years_of big)" and "length (values_of big) = length (years_of big)"
    and "sorted_wrt (<) (years_of niche)" and "length (values_of niche) = length (years_of niche)"
  shows "series_years (alignSeries dot big niche)
           = sorted_list_of_set (set (years_of dot) \<union> (set (years_of big) \<union> set (years_of niche))) \<and>
         aligned_to (series_years (alignSeries dot big niche)) (years_of dot) (values_of dot)
           (dotcom (alignSeries dot big niche)) \<and>
         aligned_to (series_years (alignSeries dot big niche)) (years_of big) (values_of big)
           (bigTech (alignSeries dot big niche)) \<and>
         aligned_to (series_years (alignSeries dot big niche)) (years_of niche) (values_of niche)
           (pureAI (alignSeries dot big niche)) \<and>
         plot_labels (plotTracks tracks) = sorted_list_of_set (\<Union>t \<in> set tracks. set (labels_of t)) \<and>
         list_all2 (\<lambda>t d. aligned_to (plot_labels (plotTracks tracks)) (labels_of t) (lvalues_of t) d)
           tracks (datasets (plotTracks tracks))"
proof -
  let ?axis = "sort (js_Set (years_of dot @ years_of big @ years_of niche))"
  have ax: "?axis = sorted_list_of_set (set (years_of dot) \<union> (set (years_of big) \<union> set (years_of niche)))"
    by (simp add: sort_js_Set)
  have s: "set ?axis = set (years_of dot) \<union> (set (years_of big) \<union> set (years_of niche))"
    by (simp add: set_js_Set)
  have y: "series_years (alignSeries dot big niche) = ?axis"
    and d: "dotcom (alignSeries dot big niche) = makeAligned ?axis (years_of dot) (values_of dot)"
    and b: "bigTech (alignSeries dot big niche) = makeAligned ?axis (years_of big) (values_of big)"
    and p: "pureAI (alignSeries dot big niche) = makeAligned ?axis (years_of niche) (values_of niche)"
    by (simp_all add: alignSeries_def Let_def)
  have a1: "aligned_to ?axis (years_of dot) (values_of dot) (makeAligned ?axis (years_of dot) (values_of dot))"
    by (rule makeAligned_aligned [OF assms(2,3)]) (auto simp: set_js_Set)
  have a2: "aligned_to ?axis (years_of big) (values_of big) (makeAligned ?axis (years_of big) (values_of big))"
    by (rule makeAligned_aligned [OF assms(4,5)]) (auto simp: set_js_Set)
  have a3: "aligned_to ?axis (years_of niche) (values_of niche) (makeAligned ?axis (years_of niche) (values_of niche))"
    by (rule makeAligned_aligned [OF assms(6,7)]) (auto simp: set_js_Set)
  let ?ls = "sort (js_Set (concat (map labels_of tracks)))"
  have pl: "plot_labels (plotTracks tracks) = ?ls"
    by (simp add: plotTracks_def Let_def)
  have ls: "?ls = sorted_list_of_set (\<Union>t \<in> set tracks. set (labels_of t))"
    by (simp add: sort_js_Set)
  have sl: "set ?ls = (\<Union>t \<in> set tracks. set (labels_of t))"
    by (simp add: set_js_Set)
  have tr: "list_all2 (\<lambda>t d. aligned_to ?ls (labels_of t) (lvalues_of t) d)
              tracks (datasets (plotTracks tracks))"
    unfolding list_all2_conv_all_nth
  proof (intro conjI allI impI)
    show "length tracks = length (datasets (plotTracks tracks))"
      by (simp add: plotTracks_def Let_def)
  next
    fix k assume k: "k < length tracks"
    then have m: "tracks ! k \<in> set tracks" by simp
    with assms(1) have h: "sorted_wrt (<) (labels_of (tracks ! k))"
        "length (lvalues_of (tracks ! k)) = length (labels_of (tracks ! k))" by auto
    have sub: "set (labels_of (tracks ! k)) \<subseteq> set ?ls" using m sl by auto
    have "datasets (plotTracks tracks) ! k =
        map (\<lambda>year. let idx = js_indexOf (labels_of (tracks ! k)) year
                     in if idx \<ge> 0 then at_index (lvalues_of (tracks ! k)) (nat idx) else None) ?ls"
      using k by (simp add: plotTracks_def Let_def)
    then show "aligned_to ?ls (labels_of (tracks ! k)) (lvalues_of (tracks ! k))
                 (datasets (plotTracks tracks) ! k)"
      using track_aligned [OF h sub] by simp
  qed
  show ?thesis
    unfolding y d b p pl using ax a1 a2 a3 ls tr by simp
qed


theorem aligner_lossless_witness:
  "alignSeries \<lparr>years_of = [2020, 2021], values_of = [1, 2]\<rparr> \<lparr>years_of = [2021, 2022], values_of = [3, 4]\<rparr>
       \<lparr>years_of = [], values_of = []\<rparr>
     = \<lparr>series_years = [2020, 2021, 2022], dotcom = [Some 1, Some 2, None],
        bigTech = [None, Some 3, Some 4], pureAI = [None, None, None]\<rparr> \<and>
   plotTracks [\<lparr>labels_of = [2020, 2021], lvalues_of = [1, 2]\<rparr>,
               \<lparr>labels_of = [2021, 2022], lvalues_of = [3, 4]\<rparr>]
     = \<lparr>plot_labels = [2020, 2021, 2022],
        datasets = [[Some 1, Some 2, None], [None, Some 3, Some 4]]\<rparr> \<and>
   aligned_to [2020, 2021, 2022] [2021, 2022] [3, 4] [None, Some 3, Some 4]"
proof -
  let ?A = "\<lparr>years_of = [2020, 2021], values_of = [1, 2]\<rparr>"
  let ?B = "\<lparr>years_of = [2021, 2022], values_of = [3, 4]\<rparr>"
  let ?C = "\<lparr>years_of = [], values_of = []\<rparr>"
  let ?T = "[\<lparr>labels_of = [2020, 2021], lvalues_of = [1, 2]\<rparr>,
             \<lparr>labels_of = [2021, 2022], lvalues_of = [3, 4]\<rparr>]"
  have h: "\<forall>t \<in> set ?T. sorted_wrt (<) (labels_of t) \<and> length (lvalues_of t) = length (labels_of t)"
    by simp
  have e1: "alignSeries ?A ?B ?C
     = \<lparr>series_years = [2020, 2021, 2022], dotcom = [Some 1, Some 2, None],
        bigTech = [None, Some 3, Some 4], pureAI = [None, None, None]\<rparr>"
    by (simp add: alignSeries_def Let_def js_Set_def makeAligned_def new_Map_def at_index_def
          enumerate_eq_zip upt_rec)
  have e2: "plotTracks ?T = \<lparr>plot_labels = [2020, 2021, 2022],
        datasets = [[Some 1, Some 2, None], [None, Some 3, Some 4]]\<rparr>"
    by (simp add: plotTracks_def Let_def js_Set_def at_index_def)
  have s1: "sorted_wrt (<) (years_of ?A)" and l1: "length (values_of ?A) = length (years_of ?A)"
    and s2: "sorted_wrt (<) (years_of ?B)" and l2: "length (values_of ?B) = length (years_of ?B)"
    and s3: "sorted_wrt (<) (years_of ?C)" and l3: "length (values_of ?C) = length (years_of ?C)"
    by simp_all
  have "aligned_to (series_years (alignSeries ?A ?B ?C)) (years_of ?B) (values_of ?B)
           (bigTech (alignSeries ?A ?B ?C))"
    using aligner_lossless [of ?T ?A ?B ?C, OF h s1 l1 s2 l2 s3 l3] by blast
  then show ?thesis using e1 e2 by simp
qed

section \<open>Smoother: \<open>movingAverage\<close>\<close>

subsection \<open>The code\<close>

text \<open>
  \<open>Number(avg.toFixed(4))\<close>. \<open>toFixed(4)\<close> prints the integer \<open>n\<close> for which \<open>n / 10^4\<close> is
  closest to \<open>|x|\<close>, the larger one on a tie, behind the sign of \<open>x\<close>; from \<open>10^21\<close> on it
  prints the number itself. \<open>Number\<close> reads the digits back.
\<close>

definition toFixed4 :: "real \<Rightarrow> real" where
  "toFixed4 x =
     (if 10 ^ 21 \<le> \<bar>x\<bar> then x
      else (if x < 0 then - 1 else 1) * real_of_int \<lfloor>\<bar>x\<bar> * 10 ^ 4 + 1 / 2\<rfloor> / 10 ^ 4)"

text \<open>The reducer \<open>(sum, v) => sum + v\<close>; \<open>null\<close> counts as \<open>0\<close> in a JavaScript sum.\<close>

definition add_num :: "real \<Rightarrow> real option \<Rightarrow> real" where
  "add_num s v = (case v of None \<Rightarrow> s | Some x \<Rightarrow> s + x)"

text \<open>
  \<^verbatim>\<open>
  function movingAverage(values, window) {
    if (window <= 1) return values;
    return values.map((val, idx, arr) => {
      if (val == null) return null;
      const start = Math.max(0, idx - Math.floor(window / 2));
      const end = Math.min(arr.length, idx + Math.ceil(window / 2));
      const slice = arr.slice(start, end).filter((v) => v != null);
      if (!slice.length) return null;
      const avg = slice.reduce((sum, v) => sum + v, 0) / slice.length;
      return Number(avg.toFixed(4));
    });
  }
  \<close>
  The window is the integer the smoothing slider gives.
\<close>

definition movingAverage :: "real option list \<Rightarrow> int \<Rightarrow> real option list" where
  "movingAverage values window =
     (if window \<le> 1 then values
      else map (\<lambda>(idx, val).
             case val of
               None \<Rightarrow> None
             | Some _ \<Rightarrow>
                 (let start = max 0 (int idx - \<lfloor>real_of_int window / 2\<rfloor>);
                      fin = min (int (length values)) (int idx + \<lceil>real_of_int window / 2\<rceil>);
                      slice = filter notNull (js_slice values start fin)
                  in if slice = [] then None
                     else Some (toFixed4 (foldl add_num 0 slice / real (length slice)))))
           (enumerate 0 values))"

subsection \<open>The window of the specification\<close>

text \<open>
  The specification's window at position \<open>i\<close> is the half-open index range
  \<open>[max(0, i - floor(W/2)), min(length, i + ceil(W/2)))\<close>; its values are the non-null
  entries at those indices.
\<close>

definition window_lo :: "int \<Rightarrow> nat \<Rightarrow> nat" where
  "window_lo w i = nat (max 0 (int i - \<lfloor>real_of_int w / 2\<rfloor>))"

definition window_hi :: "nat \<Rightarrow> int \<Rightarrow> nat \<Rightarrow> nat" where
  "window_hi n w i = nat (min (int n) (int i + \<lceil>real_of_int w / 2\<rceil>))"

definition window_values :: "real option list \<Rightarrow> int \<Rightarrow> nat \<Rightarrow> real list" where
  "window_values vs w i =
     List.map_filter (\<lambda>j. vs ! j) [window_lo w i ..< window_hi (length vs) w i]"

text \<open>
  The smoothed value as the code computes it, in the specification's terms: null where the
  source is null, null on a window without values, and otherwise the window's mean
  rounded to four decimals.
\<close>

definition smoothed_at :: "real option list \<Rightarrow> int \<Rightarrow> nat \<Rightarrow> real option" where
  "smoothed_at vs w i =
     (case vs ! i of
        None \<Rightarrow> None
      | Some _ \<Rightarrow> (if window_values vs w i = [] then None
                   else Some (toFixed4 (mean (window_values vs w i)))))"

subsection \<open>Slices and sums\<close>

lemma js_slice_nth_range:
  assumes "0 \<le> a" and "0 \<le> b" and "b \<le> int (length xs)"
  shows "js_slice xs a b = map ((!) xs) [nat a ..< nat b]"
proof (cases "a \<le> int (length xs)")
  case True
  have nb: "nat b \<le> length xs" using assms(3) by linarith
  from True assms have "js_slice xs a b = take (nat (b - a)) (drop (nat a) xs)"
    by (simp add: js_slice_def Let_def min_def)
  also have "nat (b - a) = nat b - nat a" using assms(1) by (simp add: nat_diff_distrib')
  also have "take (nat b - nat a) (drop (nat a) xs) = drop (nat a) (take (nat b) xs)"
    by (simp add: drop_take)
  also have "\<dots> = map ((!) xs) [nat a ..< nat b]"
    using nb by (simp add: list_eq_iff_nth_eq)
  finally show ?thesis .
next
  case False
  then have "nat b \<le> nat a" using assms(3) by linarith
  moreover have "js_slice xs a b = []"
    using False assms by (simp add: js_slice_def Let_def min_def)
  ultimately show ?thesis by simp
qed

lemma foldl_add_num: "foldl add_num s xs = s + sum_list (List.map_filter id xs)"
  by (induction xs arbitrary: s) (auto simp: add_num_def split: option.splits)

lemma map_filter_filter_Some:
  "List.map_filter id (filter notNull xs) = List.map_filter id xs"
  by (induction xs) (auto simp: notNull_def split: option.splits)

lemma length_filter_Some:
  "length (filter notNull xs) = length (List.map_filter id xs)"
  by (induction xs) (auto simp: notNull_def split: option.splits)

lemma map_filter_id_map: "List.map_filter id (map f xs) = List.map_filter f xs"
  by (induction xs) (auto simp: split: option.splits)

lemma ceiling_half_pos: "1 < (w::int) \<Longrightarrow> 0 < \<lceil>real_of_int w / 2\<rceil>"
  by (simp add: ceiling_less_iff)

lemma floor_half_nonneg: "1 < (w::int) \<Longrightarrow> 0 \<le> \<lfloor>real_of_int w / 2\<rfloor>"
  by simp

lemma window_slice:
  assumes "1 < w"
  shows "filter notNull
     (js_slice vs (max 0 (int i - \<lfloor>real_of_int w / 2\<rfloor>))
        (min (int (length vs)) (int i + \<lceil>real_of_int w / 2\<rceil>)))
   = filter notNull (map ((!) vs) [window_lo w i ..< window_hi (length vs) w i])"
proof -
  have "0 < \<lceil>real_of_int w / 2\<rceil>" using assms by (rule ceiling_half_pos)
  then have "0 \<le> min (int (length vs)) (int i + \<lceil>real_of_int w / 2\<rceil>)" by simp
  then show ?thesis
    by (simp add: js_slice_nth_range window_lo_def window_hi_def)
qed

lemma movingAverage_entry:
  assumes "1 < w" "i < length vs"
  shows "movingAverage vs w ! i = smoothed_at vs w i"
proof -
  let ?code = "filter notNull
     (js_slice vs (max 0 (int i - \<lfloor>real_of_int w / 2\<rfloor>))
        (min (int (length vs)) (int i + \<lceil>real_of_int w / 2\<rceil>)))"
  let ?sl = "filter notNull (map ((!) vs) [window_lo w i ..< window_hi (length vs) w i])"
  have e: "enumerate 0 vs ! i = (i, vs ! i)" using assms(2) by (simp add: nth_enumerate_eq)
  have step: "movingAverage vs w ! i =
      (case vs ! i of None \<Rightarrow> None
       | Some _ \<Rightarrow> if ?code = [] then None
                   else Some (toFixed4 (foldl add_num 0 ?code / real (length ?code))))"
    using assms e by (simp add: movingAverage_def Let_def)
  have c: "?code = ?sl" by (rule window_slice [OF assms(1)])
  have m: "List.map_filter id ?sl = window_values vs w i"
    unfolding window_values_def by (simp only: map_filter_filter_Some map_filter_id_map)
  have l: "length ?sl = length (window_values vs w i)"
    unfolding window_values_def by (simp only: length_filter_Some map_filter_id_map)
  have n: "(?sl = []) = (window_values vs w i = [])"
    using l by (metis length_0_conv)
  have f: "foldl add_num 0 ?sl = sum_list (window_values vs w i)"
    unfolding foldl_add_num m by simp
  show ?thesis
    unfolding step c n f l smoothed_at_def mean_def ..
qed

lemma length_movingAverage: "length (movingAverage vs w) = length vs"
  by (simp add: movingAverage_def)

lemma window_contains_self:
  assumes "1 < w" "i < length vs"
  shows "window_lo w i \<le> i \<and> i < window_hi (length vs) w i"
proof -
  have "0 \<le> \<lfloor>real_of_int w / 2\<rfloor>" using assms(1) by (rule floor_half_nonneg)
  moreover have "0 < \<lceil>real_of_int w / 2\<rceil>" using assms(1) by (rule ceiling_half_pos)
  ultimately show ?thesis
    unfolding window_lo_def window_hi_def using assms(2) by linarith
qed

lemma in_set_map_filter: "f x = Some y \<Longrightarrow> x \<in> set xs \<Longrightarrow> y \<in> set (List.map_filter f xs)"
  by (induction xs) (auto split: option.splits)

lemma window_values_nonempty:
  assumes "1 < w" "i < length vs" "vs ! i = Some x"
  shows "x \<in> set (window_values vs w i)"
proof -
  have "i \<in> set [window_lo w i ..< window_hi (length vs) w i]"
    using window_contains_self [OF assms(1,2)] by simp
  then show ?thesis
    unfolding window_values_def using assms(3) by (intro in_set_map_filter)
qed

subsection \<open>Claims about the smoother\<close>

text \<open>
  C9. Smoothing with window size 1 returns the input sequence unchanged, nulls included.
\<close>

theorem movingAverage_window_one_identity: "movingAverage x 1 = x"
  by (simp add: movingAverage_def)

text \<open>
  C3, as the specification states it, asks for the plain arithmetic mean of the window. The
  code rounds the mean to four decimals: on \<open>[1, 2, 2]\<close> with window 3 the middle value is
  \<open>1.6667\<close>, and the mean of the window is \<open>5/3\<close>.
\<close>

theorem movingAverage_not_plain_mean:
  "movingAverage [Some 1, Some 2, Some 2] 3 ! 1 = Some (16667 / 10000) \<and>
   mean (window_values [Some 1, Some 2, Some 2] 3 1) = 5 / 3 \<and>
   movingAverage [Some 1, Some 2, Some 2] 3 ! 1 \<noteq> Some (mean (window_values [Some 1, Some 2, Some 2] 3 1))"
  by (simp add: movingAverage_def js_slice_def toFixed4_def add_num_def notNull_def Let_def
      window_values_def window_lo_def window_hi_def mean_def upt_rec)

text \<open>
  C3, amended. The result has the length of the input. With a window of at most 1 it is the
  input. With a larger window the value at every position \<open>i\<close> is null where the source is
  null, null where the clipped window \<open>[max(0, i - floor(W/2)), min(length, i + ceil(W/2)))\<close>
  holds no value, and otherwise the arithmetic mean of the non-null values of that window
  rounded to four decimals.
\<close>

theorem movingAverage_rounded_window_mean:
  "length (movingAverage vs w) = length vs \<and>
   movingAverage vs w = (if w \<le> 1 then vs else map (smoothed_at vs w) [0 ..< length vs])"
proof (cases "w \<le> 1")
  case True
  then show ?thesis by (simp add: movingAverage_def)
next
  case False
  then have w: "1 < w" by simp
  have "movingAverage vs w = map (smoothed_at vs w) [0 ..< length vs]"
  proof (rule nth_equalityI)
    show "length (movingAverage vs w) = length (map (smoothed_at vs w) [0 ..< length vs])"
      by (simp add: length_movingAverage)
  next
    fix i assume "i < length (movingAverage vs w)"
    then have i: "i < length vs" by (simp add: length_movingAverage)
    then show "movingAverage vs w ! i = map (smoothed_at vs w) [0 ..< length vs] ! i"
      using w by (simp add: movingAverage_entry)
  qed
  with False show ?thesis by (simp add: length_movingAverage)
qed

theorem movingAverage_rounded_window_mean_witness:
  "movingAverage [Some 1, Some 2, None, Some 2] 3 = [Some (3 / 2), Some (3 / 2), None, Some 2]"
  using movingAverage_rounded_window_mean [of "[Some 1, Some 2, None, Some 2]" 3]
  by (simp add: smoothed_at_def window_values_def window_lo_def window_hi_def mean_def
      toFixed4_def upt_rec)

text \<open>
  C10. At every position the output is null exactly when the input is null, for every window
  size. Where the input value is present and the window exceeds 1, the bounds the code
  computes enclose the position itself, so the slice of non-null values is never empty and
  the branch \<open>if (!slice.length) return null\<close> is not taken.
\<close>

theorem movingAverage_null_iff:
  assumes "i < length vs"
  shows "(movingAverage vs w ! i = None \<longleftrightarrow> vs ! i = None) \<and>
         (1 < w \<and> vs ! i \<noteq> None \<longrightarrow>
            max 0 (int i - \<lfloor>real_of_int w / 2\<rfloor>) \<le> int i \<and>
            int i < min (int (length vs)) (int i + \<lceil>real_of_int w / 2\<rceil>) \<and>
            filter notNull
              (js_slice vs (max 0 (int i - \<lfloor>real_of_int w / 2\<rfloor>))
                 (min (int (length vs)) (int i + \<lceil>real_of_int w / 2\<rceil>))) \<noteq> [])"
proof (cases "1 < w")
  case False
  then show ?thesis by (simp add: movingAverage_def)
next
  case True
  have f: "0 \<le> \<lfloor>real_of_int w / 2\<rfloor>" using True by (rule floor_half_nonneg)
  have c: "0 < \<lceil>real_of_int w / 2\<rceil>" using True by (rule ceiling_half_pos)
  have ne: "window_values vs w i \<noteq> []" if "vs ! i = Some x" for x
    using window_values_nonempty [OF True assms that] by auto
  have iff: "movingAverage vs w ! i = None \<longleftrightarrow> vs ! i = None"
    unfolding movingAverage_entry [OF True assms] smoothed_at_def
    using ne by (cases "vs ! i") auto
  have sl: "filter notNull
              (js_slice vs (max 0 (int i - \<lfloor>real_of_int w / 2\<rfloor>))
                 (min (int (length vs)) (int i + \<lceil>real_of_int w / 2\<rceil>))) \<noteq> []"
    if "vs ! i \<noteq> None"
  proof -
    from that obtain x where x: "vs ! i = Some x" by auto
    have "length (filter notNull (map ((!) vs) [window_lo w i ..< window_hi (length vs) w i]))
          = length (window_values vs w i)"
      unfolding window_values_def by (simp only: length_filter_Some map_filter_id_map)
    with ne [OF x] show ?thesis
      unfolding window_slice [OF True] by (metis length_0_conv)
  qed
  have b: "max 0 (int i - \<lfloor>real_of_int w / 2\<rfloor>) \<le> int i \<and>
        int i < min (int (length vs)) (int i + \<lceil>real_of_int w / 2\<rceil>)"
    using f c assms by linarith
  show ?thesis using iff sl b by blast
qed

theorem movingAverage_null_iff_witness:
  "(1::nat) < length [Some 1, None, Some (3::real)] \<and>
   movingAverage [Some 1, None, Some 3] 2 ! 1 = None \<and>
   (2::nat) < length [Some 1, None, Some (3::real)] \<and>
   movingAverage [Some 1, None, Some 3] 2 ! 2 \<noteq> None \<and>
   filter notNull (js_slice [Some 1, None, Some (3::real)] 1 3) \<noteq> []"
  using movingAverage_null_iff [of 1 "[Some 1, None, Some 3]" 2]
        movingAverage_null_iff [of 2 "[Some 1, None, Some 3]" 2]
  by simp

section \<open>Scenario projector: \<open>scenario\<close>\<close>

subsection \<open>The code\<close>

text \<open>
  \<^verbatim>\<open>
  const scenario = useMemo(() => {
    if (!series) return { years: [], data: [] };
    const bigVals = series.bigTech.filter((v) => v != null);
    if (!bigVals.length) return { years: [], data: [] };
    const lastLog = bigVals[bigVals.length - 1];
    let currentPs = Math.exp(lastLog); // back to P/S multiple
    const years = [];
    const data = [];
    for (let year = 2025; year <= 2032; year += 1) {
      currentPs *= 1 + customGrowth / 100;
      years.push(year);
      data.push(Math.log(currentPs));
    }
    return { years, data };
  }, [series, customGrowth]);
  \<close>
  \<open>series\<close> is null or the aligned object (the parameter \<open>aligned\<close>); \<open>customGrowth\<close> is the percentage of the growth
  slider (5 to 40), so every logarithm is taken of a positive number. The loop is a recursion
  on \<open>year\<close>, \<open>currentPs\<close> and the two arrays.
\<close>

record Scenario =
  scenario_years :: "int list"
  data :: "real list"

function scenario_loop :: "real \<Rightarrow> int \<Rightarrow> real \<Rightarrow> int list \<Rightarrow> real list \<Rightarrow> Scenario" where
  "scenario_loop customGrowth year currentPs ys ds =
     (if year \<le> 2032 then
        (let currentPs' = currentPs * (1 + customGrowth / 100)
         in scenario_loop customGrowth (year + 1) currentPs' (ys @ [year]) (ds @ [ln currentPs']))
      else \<lparr>scenario_years = ys, data = ds\<rparr>)"
  by pat_completeness auto
termination
  by (relation "measure (\<lambda>(g, year, c, ys, ds). nat (2033 - year))") auto

declare scenario_loop.simps [simp del]

definition scenario :: "Series option \<Rightarrow> real \<Rightarrow> Scenario" where
  "scenario aligned customGrowth =
     (case aligned of
        None \<Rightarrow> \<lparr>scenario_years = [], data = []\<rparr>
      | Some s \<Rightarrow>
          (let bigVals = filter notNull (bigTech s)
           in if bigVals = [] then \<lparr>scenario_years = [], data = []\<rparr>
              else (let lastLog = the (bigVals ! (length bigVals - 1));
                        currentPs = exp lastLog
                    in scenario_loop customGrowth 2025 currentPs [] [])))"

subsection \<open>The loop in closed form\<close>

lemma map_geometric_shift:
  "map (\<lambda>k. ln (c * q ^ k)) [1 ..< Suc (Suc n)]
     = ln (c * q) # map (\<lambda>k. ln (c * q * q ^ k)) [1 ..< Suc n]"
proof -
  have "[1 ..< Suc (Suc n)] = 1 # map Suc [1 ..< Suc n]"
    by (metis One_nat_def map_Suc_upt upt_conv_Cons zero_less_Suc Suc_less_eq)
  then show ?thesis by (simp add: comp_def mult.assoc)
qed

lemma scenario_loop_unfold:
  "scenario_loop g year c ys ds =
     \<lparr>scenario_years = ys @ [year..2032],
      data = ds @ map (\<lambda>k. ln (c * (1 + g / 100) ^ k)) [1 ..< Suc (nat (2033 - year))]\<rparr>"
proof (induction g year c ys ds rule: scenario_loop.induct)
  case (1 g year c ys ds)
  let ?q = "1 + g / 100"
  show ?case
  proof (cases "year \<le> 2032")
    case False
    then show ?thesis by (simp add: scenario_loop.simps [of g year])
  next
    case True
    define n where "n = nat (2033 - (year + 1))"
    have n: "nat (2033 - year) = Suc n" using True by (simp add: n_def)
    have u: "[year..2032] = year # [year + 1..2032]" using True by (simp add: upto_rec1)
    have "scenario_loop g year c ys ds
        = scenario_loop g (year + 1) (c * ?q) (ys @ [year]) (ds @ [ln (c * ?q)])"
      using True by (subst scenario_loop.simps) (simp add: Let_def)
    also have "\<dots> = \<lparr>scenario_years = (ys @ [year]) @ [year + 1..2032],
        data = (ds @ [ln (c * ?q)]) @ map (\<lambda>k. ln (c * ?q * ?q ^ k)) [1 ..< Suc n]\<rparr>"
      unfolding n_def by (rule 1 [OF True refl])
    also have "(ys @ [year]) @ [year + 1..2032] = ys @ [year..2032]"
      unfolding u by simp
    also have "(ds @ [ln (c * ?q)]) @ map (\<lambda>k. ln (c * ?q * ?q ^ k)) [1 ..< Suc n]
        = ds @ map (\<lambda>k. ln (c * ?q ^ k)) [1 ..< Suc (nat (2033 - year))]"
      unfolding n map_geometric_shift by simp
    finally show ?thesis .
  qed
qed

lemma upto_2025_2032: "[2025..2032] = [2025, 2026, 2027, 2028, 2029, 2030, 2031, 2032 :: int]"
  by (simp add: upto_rec1)

lemma upt_1_9: "[Suc 0 ..< 9] = [1, 2, 3, 4, 5, 6, 7, 8]"
  by (simp add: upt_rec)

lemma scenario_loop_from_2025:
  "scenario_loop g 2025 c [] [] =
     \<lparr>scenario_years = [2025, 2026, 2027, 2028, 2029, 2030, 2031, 2032],
      data = map (\<lambda>k. ln (c * (1 + g / 100) ^ k)) [1 ..< 9]\<rparr>"
proof -
  have "Suc (nat (2033 - 2025)) = 9" by simp
  then show ?thesis
    unfolding scenario_loop_unfold upto_2025_2032 by simp
qed

lemma scenario_Some:
  "scenario (Some s) g =
     (if filter notNull (bigTech s) = [] then \<lparr>scenario_years = [], data = []\<rparr>
      else \<lparr>scenario_years = [2025, 2026, 2027, 2028, 2029, 2030, 2031, 2032],
            data = map (\<lambda>k. ln (exp (the (last (filter notNull (bigTech s)))) * (1 + g / 100) ^ k))
                     [1 ..< 9]\<rparr>)"
  by (simp add: scenario_def Let_def scenario_loop_from_2025 last_conv_nth)

subsection \<open>Claims about the projector\<close>

text \<open>
  The last observed year of the cohort: the year of the last non-null value of the aligned
  \<open>bigTech\<close> sequence.
\<close>

definition last_observed_year :: "Series \<Rightarrow> int" where
  "last_observed_year s = last (map fst (filter (\<lambda>(y, v). notNull v) (zip (series_years s) (bigTech s))))"

text \<open>
  C4, as the specification states it, gives the projector a horizon of \<open>n\<close> years and expects
  the two values \<open>[ln 22, ln 24.2]\<close> from \<open>ln 20\<close> at a growth of 10 percent over \<open>n = 2\<close>
  years. The code has no horizon parameter: it always projects the eight years 2025 to 2032,
  so from \<open>ln 20\<close> at 10 percent it yields eight values, not those two.
\<close>

theorem scenario_not_two_values:
  "length (data (scenario (Some \<lparr>series_years = [2024], dotcom = [None], bigTech = [Some (ln 20)], pureAI = [None]\<rparr>) 10)) = 8 \<and>
   data (scenario (Some \<lparr>series_years = [2024], dotcom = [None], bigTech = [Some (ln 20)], pureAI = [None]\<rparr>) 10)
     \<noteq> [ln 22, ln (242 / 10)]"
proof -
  let ?d = "data (scenario (Some \<lparr>series_years = [2024], dotcom = [None], bigTech = [Some (ln 20)], pureAI = [None]\<rparr>) 10)"
  have l: "length ?d = 8" by (simp add: scenario_Some notNull_def)
  have "?d \<noteq> ys" if "length ys = 2" for ys using l that by auto
  then show ?thesis using l by simp
qed


text \<open>
  C4, amended. The horizon is fixed: whenever the cohort has a non-null value, with \<open>L\<close> the
  last one and \<open>r = customGrowth / 100\<close>, the projector yields the years 2025 to 2032 and for
  the \<open>k\<close>-th of them (\<open>k = 1..8\<close>, in order) the value \<open>ln (exp L * (1 + r)^k)\<close>; from
  \<open>L = ln 20\<close> and \<open>r = 0.1\<close> the values start \<open>ln 22, ln 24.2\<close>. Without a series, or without
  any non-null value, the scenario is empty.
\<close>

theorem scenario_compound_growth:
  "scenario aligned customGrowth =
     (case aligned of
        None \<Rightarrow> \<lparr>scenario_years = [], data = []\<rparr>
      | Some s \<Rightarrow>
          if filter notNull (bigTech s) = [] then \<lparr>scenario_years = [], data = []\<rparr>
          else \<lparr>scenario_years = [2025, 2026, 2027, 2028, 2029, 2030, 2031, 2032],
                data = map (\<lambda>k. ln (exp (the (last (filter notNull (bigTech s))))
                                      * (1 + customGrowth / 100) ^ k)) [1 ..< 9]\<rparr>)"
proof (cases aligned)
  case None
  then show ?thesis by (simp add: scenario_def)
next
  case (Some s)
  then show ?thesis by (simp only: scenario_Some option.case)
qed


theorem scenario_compound_growth_witness:
  "scenario (Some \<lparr>series_years = [2024], dotcom = [None], bigTech = [Some (ln 20)], pureAI = [None]\<rparr>) 10
     = \<lparr>scenario_years = [2025, 2026, 2027, 2028, 2029, 2030, 2031, 2032],
        data = [ln 22, ln (242 / 10), ln (2662 / 100), ln (29282 / 1000), ln (322102 / 10000),
                ln (3543122 / 100000), ln (38974342 / 1000000), ln (428717762 / 10000000)]\<rparr>"
  using scenario_compound_growth [of "Some \<lparr>series_years = [2024], dotcom = [None], bigTech = [Some (ln 20)], pureAI = [None]\<rparr>" 10]
  by (simp add: notNull_def upt_1_9 power_divide)


text \<open>
  C8, as the specification states it, puts every projected year strictly after the cohort's
  last observed year and starts the horizon at the year after it. The code projects from
  2025 whatever was observed: with observations for 2024 and 2025 the first projected year is
  2025, the last observed year itself.
\<close>

theorem scenario_repeats_observed_year:
  "last_observed_year \<lparr>series_years = [2024, 2025], dotcom = [None, None], bigTech = [Some 1, Some 2], pureAI = [None, None]\<rparr> = 2025 \<and>
   2025 \<in> set (scenario_years (scenario (Some \<lparr>series_years = [2024, 2025], dotcom = [None, None], bigTech = [Some 1, Some 2], pureAI = [None, None]\<rparr>) 18)) \<and>
   hd (scenario_years (scenario (Some \<lparr>series_years = [2024, 2025], dotcom = [None, None], bigTech = [Some 1, Some 2], pureAI = [None, None]\<rparr>) 18)) = 2025"
  by (simp add: scenario_Some notNull_def last_observed_year_def)


text \<open>
  C8, amended. Whenever the cohort has a non-null value, the projected years are exactly
  2025, 2026, \<dots>, 2032, ascending and contiguous, whatever the observed years are; they are
  all strictly greater than the last observed year exactly when that year is before 2025.
\<close>

theorem scenario_years_fixed:
  assumes "filter notNull (bigTech s) \<noteq> []"
  shows "scenario_years (scenario (Some s) g) = [2025, 2026, 2027, 2028, 2029, 2030, 2031, 2032] \<and>
     ((\<forall>y \<in> set (scenario_years (scenario (Some s) g)). last_observed_year s < y)
        \<longleftrightarrow> last_observed_year s < 2025)"
  using assms by (auto simp: scenario_Some)


theorem scenario_years_fixed_witness:
  "last_observed_year \<lparr>series_years = [2023, 2024], dotcom = [None, None], bigTech = [Some 1, Some 2], pureAI = [None, None]\<rparr> = 2024 \<and>
   scenario_years (scenario (Some \<lparr>series_years = [2023, 2024], dotcom = [None, None], bigTech = [Some 1, Some 2], pureAI = [None, None]\<rparr>) 18)
     = [2025, 2026, 2027, 2028, 2029, 2030, 2031, 2032]"
  using scenario_years_fixed [of "\<lparr>series_years = [2023, 2024], dotcom = [None, None], bigTech = [Some 1, Some 2], pureAI = [None, None]\<rparr>" 18]
  by (simp add: notNull_def last_observed_year_def)

end
